theory Spec2Isabelle
  imports Main "HOL-Library.Word"
begin

section \<open>The package installation state machine of the Rainbond operator\<close>

text \<open>
  A shallow embedding of \<^verbatim>\<open>controllers/rainbondpackage_controller.go\<close>: the condition
  store, the stage gatekeeper, the three stages and the reconciliation entry point.
  Methods of the Go struct \<^verbatim>\<open>pkg\<close> become functions that take the struct and return it
  updated. Everything outside the process (the clock, the API server, the image engine,
  the file system) is a parameter of type \<open>world\<close>; the calls made to it are recorded in
  a trace kept beside the struct.
\<close>

subsection \<open>API types\<close>

text \<open>
  Modelled from the spec: the type declarations of package \<^verbatim>\<open>api/v1alpha1\<close> are not among
  the sources. The stages and the four condition statuses are those of the data model;
  the fields of a condition are the ones the controller reads and writes.
\<close>

datatype PackageConditionType = Init | DownloadPackage | UnpackPackage | PushImage | Ready

datatype PackageConditionStatus = Waiting | Running | Completed | Failed

record PackageCondition =
  Type :: PackageConditionType
  Status :: PackageConditionStatus
  LastHeartbeatTime :: nat
  LastTransitionTime :: nat
  Reason :: string
  Message :: string
  Progress :: int

text \<open>
  \<^verbatim>\<open>RainbondPackage\<close>: the fields of \<^verbatim>\<open>Spec\<close> and \<^verbatim>\<open>Status\<close> the controller uses, side by
  side. \<^verbatim>\<open>ImagesNumber\<close> is an \<^verbatim>\<open>int32\<close>.
\<close>

record RainbondPackage =
  PkgPath :: string
  ImageHubUser :: string
  ImageHubPass :: string
  Conditions :: "PackageCondition list"
  ImagesNumber :: "32 word"
  ImagesPushed :: "string list"

datatype InstallationMode = InstallationModeFullOnline | InstallationModeOther string

datatype ConditionStatus = ConditionTrue | ConditionFalse | ConditionUnknown

record ImageHub =
  Domain :: string
  Namespace :: string
  Username :: string
  Password :: string

text \<open>
  \<^verbatim>\<open>RainbondCluster\<close>. \<open>ImageRepositoryCondition\<close> is what
  \<^verbatim>\<open>Status.GetCondition(RainbondClusterConditionTypeImageRepository)\<close> finds: \<open>None\<close> for
  the index \<^verbatim>\<open>-1\<close>.
\<close>

record RainbondCluster =
  ConfigCompleted :: bool
  InstallMode :: InstallationMode
  InstallVersion :: string
  CIVersion :: string
  RainbondImageRepository :: string
  ImageHub :: "ImageHub option"
  ImageRepositoryCondition :: "ConditionStatus option"

subsection \<open>The world\<close>

text \<open>
  Every call that leaves the process is an event. The world answers a call from the
  events so far, so an engine that fails twice and then succeeds is a world like any
  other.
\<close>

datatype event =
    EvUpdateCRStatus
  | EvCheckMD5
  | EvDownload
  | EvOpen string
  | EvUntartar
  | EvImageList string
  | EvImagePull string
  | EvImageTag string string
  | EvImagePush string
  | EvImageLoad string

text \<open>One message of the engine's JSON stream: its \<^verbatim>\<open>error\<close> and \<^verbatim>\<open>stream\<close> fields.\<close>

record JSONMessage =
  Error :: "string option"
  Stream :: string

text \<open>A stream ends at \<^verbatim>\<open>io.EOF\<close> or at a message that does not decode.\<close>

datatype body = EOF | DecodeError string | Msg JSONMessage body

datatype 'a get_result = NotFound | GetError string | Found 'a

record world =
  Now :: "nat \<Rightarrow> nat"
  getPackage :: "RainbondPackage get_result"
  getCluster :: "RainbondCluster get_result"
  newDockerClient :: "string option"
  statusUpdate :: "event list \<Rightarrow> string option"
  checkMD5 :: "event list \<Rightarrow> bool"
  download :: "event list \<Rightarrow> 32 word list \<times> string option"
  openFile :: "event list \<Rightarrow> string \<Rightarrow> string option"
  untar :: "event list \<Rightarrow> 32 word list \<times> string option"
  imageList :: "event list \<Rightarrow> string \<Rightarrow> string + nat"
  imagePullStream :: "event list \<Rightarrow> string \<Rightarrow> string + body option"
  imageTag :: "event list \<Rightarrow> string \<Rightarrow> string \<Rightarrow> string option"
  imagePushStream :: "event list \<Rightarrow> string \<Rightarrow> string + body option"
  imageLoadStream :: "event list \<Rightarrow> string \<Rightarrow> string + body option"
  parseAnyReference :: "string \<Rightarrow> string + string"
  rangeOrder :: "(string \<times> string) list \<Rightarrow> (string \<times> string) list"
  walk :: "(string \<times> string option) list"
  IsFile :: "string \<Rightarrow> bool"
  GetImageRepository :: string
  DefImageRepository :: string

text \<open>
  What the pass has done to the world: the events, the number of clock readings taken
  (\<^verbatim>\<open>metav1.Now()\<close> number \<open>k\<close> returns \<open>Now w k\<close>), and the status the API server holds
  after the last update that succeeded.
\<close>

record env =
  trace :: "event list"
  nows :: nat
  stored :: "RainbondPackage option"

definition emit :: "event \<Rightarrow> env \<Rightarrow> env" where
  "emit e v = v\<lparr>trace := trace v @ [e]\<rparr>"

definition tick :: "env \<Rightarrow> env" where
  "tick v = v\<lparr>nows := Suc (nows v)\<rparr>"

subsection \<open>The handle of one pass\<close>

text \<open>
  The struct \<^verbatim>\<open>pkg\<close>. The context, the loggers and the two clients are not data; the
  environment \<open>env\<close> stands for the clients. The map \<^verbatim>\<open>images\<close> is the list of its entries
  in the order a \<^verbatim>\<open>range\<close> visits them.
\<close>

record pkg =
  pkg :: RainbondPackage
  cluster :: RainbondCluster
  downloadPackage :: bool
  localPackagePath :: string
  downloadPackageURL :: string
  downloadPackageMD5 :: string
  downloadImageDomain :: string
  pushImageDomain :: string
  totalImageNum :: "32 word"
  images :: "(string \<times> string) list"
  version :: string
  env :: env

subsection \<open>The condition store\<close>

text \<open>
  A pointer into \<^verbatim>\<open>p.pkg.Status.Conditions\<close> is an index. \<open>findIndex\<close> is the loop
  \<^verbatim>\<open>for i, condition := range ... { if condition.Type == typ3 { ... } }\<close> up to its first
  hit; \<^verbatim>\<open>nil\<close> is \<open>None\<close>.
\<close>

fun findIndex :: "PackageConditionType \<Rightarrow> PackageCondition list \<Rightarrow> nat option" where
  "findIndex typ3 [] = None"
| "findIndex typ3 (c # cs) =
     (if Type c = typ3 then Some 0 else map_option Suc (findIndex typ3 cs))"

definition findCondition :: "PackageConditionType \<Rightarrow> pkg \<Rightarrow> nat option" where
  "findCondition typ3 p = findIndex typ3 (Conditions (pkg p))"

text \<open>\<^verbatim>\<open>p.pkg.Status.Conditions[i].F = v\<close>, for the fields \<open>f\<close> sets.\<close>

definition modCondition :: "nat \<Rightarrow> (PackageCondition \<Rightarrow> PackageCondition) \<Rightarrow> pkg \<Rightarrow> pkg" where
  "modCondition i f p =
     p\<lparr>pkg := (pkg p)\<lparr>Conditions := (Conditions (pkg p))[i := f (Conditions (pkg p) ! i)]\<rparr>\<rparr>"

text \<open>\<^verbatim>\<open>metav1.Now()\<close>: the reading, and the handle after it.\<close>

definition now :: "world \<Rightarrow> pkg \<Rightarrow> nat" where
  "now w p = Now w (nows (env p))"

definition ticked :: "pkg \<Rightarrow> pkg" where
  "ticked p = p\<lparr>env := tick (env p)\<rparr>"

definition updateConditionStatus ::
  "world \<Rightarrow> PackageConditionType \<Rightarrow> PackageConditionStatus \<Rightarrow> pkg \<Rightarrow> pkg" where
  "updateConditionStatus w typ3 status p =
     (case findIndex typ3 (Conditions (pkg p)) of
        None \<Rightarrow> p
      | Some i \<Rightarrow>
          let p1 = (if Status (Conditions (pkg p) ! i) \<noteq> status
                    then ticked (modCondition i (\<lambda>c. c\<lparr>LastTransitionTime := now w p\<rparr>) p)
                    else p);
              p2 = ticked (modCondition i (\<lambda>c. c\<lparr>LastHeartbeatTime := now w p1\<rparr>) p1);
              p3 = modCondition i (\<lambda>c. c\<lparr>Status := status\<rparr>) p2
          in if status = Completed
             then modCondition i (\<lambda>c. c\<lparr>Progress := 100, Reason := [], Message := []\<rparr>) p3
             else p3)"

definition updateConditionResion ::
  "world \<Rightarrow> PackageConditionType \<Rightarrow> string \<Rightarrow> string \<Rightarrow> pkg \<Rightarrow> pkg" where
  "updateConditionResion w typ3 resion message p =
     (case findIndex typ3 (Conditions (pkg p)) of
        None \<Rightarrow> p
      | Some i \<Rightarrow>
          ticked (modCondition i
            (\<lambda>c. c\<lparr>LastHeartbeatTime := now w p, Reason := resion, Message := message\<rparr>) p))"

text \<open>
  The loop of \<^verbatim>\<open>updateConditionProgress\<close> has no \<^verbatim>\<open>break\<close>: a condition of the type whose
  progress is already the new value gets its heartbeat and the loop goes on. The counter
  is the number of clock readings.
\<close>

fun progressLoop ::
  "(nat \<Rightarrow> nat) \<Rightarrow> PackageConditionType \<Rightarrow> int \<Rightarrow> PackageCondition list \<Rightarrow> nat
     \<Rightarrow> bool \<times> PackageCondition list \<times> nat" where
  "progressLoop clock typ3 v [] n = (False, [], n)"
| "progressLoop clock typ3 v (c # cs) n =
     (if Type c = typ3
      then (if Progress c \<noteq> v
            then (True, c\<lparr>LastHeartbeatTime := clock n, Progress := v\<rparr> # cs, Suc n)
            else (case progressLoop clock typ3 v cs (Suc n) of
                    (b, cs', n') \<Rightarrow> (b, c\<lparr>LastHeartbeatTime := clock n\<rparr> # cs', n')))
      else (case progressLoop clock typ3 v cs n of
              (b, cs', n') \<Rightarrow> (b, c # cs', n')))"

text \<open>
  \<^verbatim>\<open>progress\<close> is an \<^verbatim>\<open>int32\<close>, read signed; \<^verbatim>\<open>Progress\<close> is an \<^verbatim>\<open>int\<close>, which holds every
  \<^verbatim>\<open>int32\<close>.
\<close>

definition updateConditionProgress ::
  "world \<Rightarrow> PackageConditionType \<Rightarrow> 32 word \<Rightarrow> pkg \<Rightarrow> bool \<times> pkg" where
  "updateConditionProgress w typ3 progress p =
     (let progress' = (if 100 < sint progress then 100 else progress)
      in case progressLoop (Now w) typ3 (sint progress') (Conditions (pkg p)) (nows (env p)) of
           (b, cs, n) \<Rightarrow>
             (b, p\<lparr>pkg := (pkg p)\<lparr>Conditions := cs\<rparr>, env := (env p)\<lparr>nows := n\<rparr>\<rparr>))"

subsection \<open>Writing the status back\<close>

text \<open>
  \<^verbatim>\<open>updateCRStatus(client, pkg)\<close>: the read-and-write under \<^verbatim>\<open>retry.RetryOnConflict\<close> is one
  call to the API server, which the world answers with the error, if any.
\<close>

definition updateCRStatus :: "world \<Rightarrow> RainbondPackage \<Rightarrow> env \<Rightarrow> string option \<times> env" where
  "updateCRStatus w obj v =
     (case statusUpdate w (trace v) of
        None \<Rightarrow> (None, (emit EvUpdateCRStatus v)\<lparr>stored := Some obj\<rparr>)
      | Some e \<Rightarrow>
          (Some (''failed to update rainbondpackage status: '' @ e), emit EvUpdateCRStatus v))"

text \<open>The method \<^verbatim>\<open>p.updateCRStatus()\<close>.\<close>

definition pkg_updateCRStatus :: "world \<Rightarrow> pkg \<Rightarrow> string option \<times> pkg" where
  "pkg_updateCRStatus w p =
     (case updateCRStatus w (pkg p) (env p) of (err, v) \<Rightarrow> (err, p\<lparr>env := v\<rparr>))"

definition completeCondition :: "world \<Rightarrow> nat option \<Rightarrow> pkg \<Rightarrow> string option \<times> pkg" where
  "completeCondition w con p =
     (case con of
        None \<Rightarrow> (None, p)
      | Some i \<Rightarrow>
          pkg_updateCRStatus w
            (updateConditionStatus w (Type (Conditions (pkg p) ! i)) Completed p))"

definition runningCondition :: "world \<Rightarrow> nat option \<Rightarrow> pkg \<Rightarrow> string option \<times> pkg" where
  "runningCondition w con p =
     (case con of
        None \<Rightarrow> (None, p)
      | Some i \<Rightarrow>
          pkg_updateCRStatus w
            (updateConditionStatus w (Type (Conditions (pkg p) ! i)) Running p))"

subsection \<open>The stage gatekeeper\<close>

text \<open>An error of \<open>completeCondition\<close> or \<open>runningCondition\<close> is logged and dropped.\<close>

definition canDownload :: "world \<Rightarrow> pkg \<Rightarrow> bool \<times> pkg" where
  "canDownload w p =
     (case findCondition DownloadPackage p of
        Some con \<Rightarrow>
          if Status (Conditions (pkg p) ! con) \<noteq> Completed
          then (if \<not> downloadPackage p
                then (False, snd (completeCondition w (Some con) p))
                else (True, snd (runningCondition w (Some con) p)))
          else (False, p)
      | None \<Rightarrow> (False, p))"

definition canUnpack :: "world \<Rightarrow> pkg \<Rightarrow> bool \<times> pkg" where
  "canUnpack w p =
     (case findCondition DownloadPackage p of
        Some con \<Rightarrow>
          if Status (Conditions (pkg p) ! con) \<noteq> Completed
          then (False, p)
          else (case findCondition UnpackPackage p of
                  Some uncon \<Rightarrow>
                    if Status (Conditions (pkg p) ! uncon) \<noteq> Completed
                    then (if \<not> downloadPackage p
                          then (False, snd (completeCondition w (Some uncon) p))
                          else (True, snd (runningCondition w (Some uncon) p)))
                    else (False, p)
                | None \<Rightarrow> (False, p))
      | None \<Rightarrow> (False, p))"

definition canPushImage :: "pkg \<Rightarrow> bool" where
  "canPushImage p =
     (case findCondition UnpackPackage p of
        Some uncon \<Rightarrow>
          if Status (Conditions (pkg p) ! uncon) \<noteq> Completed
          then False
          else (case findCondition PushImage p of
                  Some pcon \<Rightarrow> Status (Conditions (pkg p) ! pcon) \<noteq> Completed
                | None \<Rightarrow> False)
      | None \<Rightarrow> False)"

definition canReady :: "pkg \<Rightarrow> bool" where
  "canReady p =
     (case findCondition PushImage p of
        Some pcon \<Rightarrow> Status (Conditions (pkg p) ! pcon) = Completed
      | None \<Rightarrow> False)"

text \<open>
  \<^verbatim>\<open>setInitStatus\<close> writes \<^verbatim>\<open>con.Status\<close> through the pointer and returns the error of the
  status update.
\<close>

definition setInitStatus :: "world \<Rightarrow> pkg \<Rightarrow> string option \<times> pkg" where
  "setInitStatus w p =
     (case findCondition Init p of
        Some con \<Rightarrow>
          if Status (Conditions (pkg p) ! con) \<noteq> Completed
          then pkg_updateCRStatus w (modCondition con (\<lambda>c. c\<lparr>Status := Completed\<rparr>) p)
          else (None, p)
      | None \<Rightarrow> (None, p))"

subsection \<open>Go's \<^verbatim>\<open>strings\<close> and \<^verbatim>\<open>path\<close>\<close>

text \<open>A Go string is a sequence of bytes, as a \<open>string\<close> is here.\<close>

definition HasPrefix :: "string \<Rightarrow> string \<Rightarrow> bool" where
  "HasPrefix s prefix = (take (length prefix) s = prefix)"

definition HasSuffix :: "string \<Rightarrow> string \<Rightarrow> bool" where
  "HasSuffix s suffix =
     (length suffix \<le> length s \<and> drop (length s - length suffix) s = suffix)"

fun Contains :: "string \<Rightarrow> string \<Rightarrow> bool" where
  "Contains [] substr = (substr = [])"
| "Contains (c # cs) substr = (HasPrefix (c # cs) substr \<or> Contains cs substr)"

text \<open>
  \<^verbatim>\<open>strings.Replace(s, old, new, -1)\<close> for a non-empty \<open>old\<close>, as at both call sites:
  every occurrence from the left, without overlap. \<open>k\<close> bytes of a match are still to
  be skipped.
\<close>

fun replaceFrom :: "nat \<Rightarrow> string \<Rightarrow> string \<Rightarrow> string \<Rightarrow> string" where
  "replaceFrom k old new [] = []"
| "replaceFrom k old new (c # cs) =
     (if 0 < k then replaceFrom (k - 1) old new cs
      else if HasPrefix (c # cs) old then new @ replaceFrom (length old - 1) old new cs
      else c # replaceFrom 0 old new cs)"

definition Replace :: "string \<Rightarrow> string \<Rightarrow> string \<Rightarrow> string" where
  "Replace s old new = replaceFrom 0 old new s"

text \<open>The elements of a path between its slashes, empty ones included.\<close>

fun splitOn :: "char \<Rightarrow> string \<Rightarrow> string \<Rightarrow> string list" where
  "splitOn sep cur [] = [cur]"
| "splitOn sep cur (c # cs) =
     (if c = sep then cur # splitOn sep [] cs else splitOn sep (cur @ [c]) cs)"

fun joinWith :: "char \<Rightarrow> string list \<Rightarrow> string" where
  "joinWith sep [] = []"
| "joinWith sep [x] = x"
| "joinWith sep (x # y # ys) = x @ sep # joinWith sep (y # ys)"

text \<open>
  \<^verbatim>\<open>path.Clean\<close>. The stack holds the elements written so far, the last one first. A
  \<^verbatim>\<open>..\<close> removes the element before it, unless there is none to remove: then it is kept
  in a relative path and dropped in a rooted one.
\<close>

definition cleanStep :: "bool \<Rightarrow> string \<Rightarrow> string list \<Rightarrow> string list" where
  "cleanStep rooted e st =
     (if e = [] \<or> e = ''.'' then st
      else if e = ''..''
      then (case st of
              t # ts \<Rightarrow> if t \<noteq> ''..'' then ts else if rooted then st else e # st
            | [] \<Rightarrow> if rooted then [] else [e])
      else e # st)"

definition Clean :: "string \<Rightarrow> string" where
  "Clean path =
     (if path = [] then ''.''
      else let rooted = (hd path = CHR ''/'');
               out = joinWith (CHR ''/'')
                       (rev (fold (cleanStep rooted) (splitOn (CHR ''/'') [] path) []))
           in if rooted then CHR ''/'' # out
              else if out = [] then ''.'' else out)"

text \<open>\<^verbatim>\<open>path.Join\<close>: the elements from the first non-empty one on, joined and cleaned.\<close>

definition Join :: "string list \<Rightarrow> string" where
  "Join elem =
     (case dropWhile (\<lambda>e. e = []) elem of
        [] \<Rightarrow> []
      | es \<Rightarrow> Clean (joinWith (CHR ''/'') es))"

text \<open>\<^verbatim>\<open>path.Base\<close>: the last element, trailing slashes removed first.\<close>

definition Base :: "string \<Rightarrow> string" where
  "Base path =
     (if path = [] then ''.''
      else let p = rev (dropWhile (\<lambda>c. c = CHR ''/'') (rev path));
               b = rev (takeWhile (\<lambda>c. c \<noteq> CHR ''/'') (rev p))
           in if b = [] then ''/'' else b)"

text \<open>\<^verbatim>\<open>path.Ext\<close>: from the last dot of the last element on.\<close>

definition Ext :: "string \<Rightarrow> string" where
  "Ext path =
     (let el = takeWhile (\<lambda>c. c \<noteq> CHR ''/'') (rev path)
      in if CHR ''.'' \<in> set el
         then CHR ''.'' # rev (takeWhile (\<lambda>c. c \<noteq> CHR ''.'') el)
         else [])"

subsection \<open>Image names\<close>

definition trimLatest :: "string \<Rightarrow> string" where
  "trimLatest str =
     (if \<not> HasSuffix str '':latest'' then str
      else take (length str - length '':latest'') str)"

definition parseImageName :: "string \<Rightarrow> string" where
  "parseImageName str =
     (if \<not> Contains str ''Loaded image: '' then []
      else trimLatest (Replace (Replace str ''Loaded image: '' []) [CHR 0x0A] []))"

definition validateFile :: "string \<Rightarrow> bool" where
  "validateFile file =
     (let base = Base file
      in \<not> (Ext base \<noteq> ''.tgz'' \<or> HasPrefix base ''._''))"

subsection \<open>Image references\<close>

text \<open>
  \<^verbatim>\<open>reference.Parse\<close> of \<^verbatim>\<open>github.com/docker/distribution/reference\<close>, a library the
  controller imports, by the grammar the library documents:
  \<^verbatim>\<open>
  reference       := name [ ":" tag ] [ "@" digest ]
  name            := [domain '/'] path-component ['/' path-component]*
  domain          := domain-component ['.' domain-component]* [':' port-number]
  domain-component:= /([a-zA-Z0-9]|[a-zA-Z0-9][a-zA-Z0-9-]*[a-zA-Z0-9])/
  port-number     := /[0-9]+/
  path-component  := alpha-numeric [separator alpha-numeric]*
  alpha-numeric   := /[a-z0-9]+/
  separator       := /[_.]|__|[-]*/
  tag             := /[\w][\w.-]{0,127}/
  digest          := digest-algorithm ":" digest-hex
  digest-algorithm:= digest-algorithm-component [separator digest-algorithm-component]*
                     with separator /[+.-_]/ and component /[A-Za-z][A-Za-z0-9]*/
  digest-hex      := /[0-9a-fA-F]{32,}/
  \<close>
  A tag holds neither a slash nor a colon and a name holds a colon only before a port
  that a slash follows, so a reference has at most one reading: the tag starts after
  the last colon when no slash follows that colon. The name is then split as the
  library's anchored name expression splits it: a domain is taken when the text before
  the first slash is one and the rest is a path.
\<close>

definition isDigit :: "char \<Rightarrow> bool" where
  "isDigit c = (let n = (of_char c :: nat) in 48 \<le> n \<and> n \<le> 57)"

definition isLower :: "char \<Rightarrow> bool" where
  "isLower c = (let n = (of_char c :: nat) in 97 \<le> n \<and> n \<le> 122)"

definition isUpper :: "char \<Rightarrow> bool" where
  "isUpper c = (let n = (of_char c :: nat) in 65 \<le> n \<and> n \<le> 90)"

definition isAlphaNumeric :: "char \<Rightarrow> bool" where
  "isAlphaNumeric c = (isLower c \<or> isDigit c)"

definition isAlnum :: "char \<Rightarrow> bool" where
  "isAlnum c = (isLower c \<or> isUpper c \<or> isDigit c)"

definition isWord :: "char \<Rightarrow> bool" where
  "isWord c = (isAlnum c \<or> c = CHR ''_'')"

definition toLower :: "string \<Rightarrow> string" where
  "toLower s = map (\<lambda>c. if isUpper c then char_of (of_char c + (32 :: nat)) else c) s"

text \<open>
  A path component, read from the left: at the start, after an alpha-numeric, after a
  dot, after one underscore, after two, after a run of dashes.
\<close>

datatype cstate = CStart | CAlnum | CDot | CUnder | CUnder2 | CDash

fun pathComponentFrom :: "cstate \<Rightarrow> string \<Rightarrow> bool" where
  "pathComponentFrom q [] = (q = CAlnum)"
| "pathComponentFrom q (c # cs) =
     (if isAlphaNumeric c then pathComponentFrom CAlnum cs
      else if c = CHR ''.'' then q = CAlnum \<and> pathComponentFrom CDot cs
      else if c = CHR ''_'' then
        (if q = CAlnum then pathComponentFrom CUnder cs
         else q = CUnder \<and> pathComponentFrom CUnder2 cs)
      else if c = CHR ''-'' then (q = CAlnum \<or> q = CDash) \<and> pathComponentFrom CDash cs
      else False)"

definition isPath :: "string \<Rightarrow> bool" where
  "isPath s = list_all (pathComponentFrom CStart) (splitOn (CHR ''/'') [] s)"

definition isDomainComponent :: "string \<Rightarrow> bool" where
  "isDomainComponent s =
     (s \<noteq> [] \<and> isAlnum (hd s) \<and> isAlnum (last s)
      \<and> list_all (\<lambda>c. isAlnum c \<or> c = CHR ''-'') s)"

definition isDomain :: "string \<Rightarrow> bool" where
  "isDomain s =
     (let host = takeWhile (\<lambda>c. c \<noteq> CHR '':'') s;
          rest = dropWhile (\<lambda>c. c \<noteq> CHR '':'') s
      in list_all isDomainComponent (splitOn (CHR ''.'') [] host)
         \<and> (rest = [] \<or> (tl rest \<noteq> [] \<and> list_all isDigit (tl rest))))"

definition isTag :: "string \<Rightarrow> bool" where
  "isTag s =
     (s \<noteq> [] \<and> isWord (hd s) \<and> length s \<le> 128
      \<and> list_all (\<lambda>c. isWord c \<or> c = CHR ''.'' \<or> c = CHR ''-'') (tl s))"

text \<open>
  The digest of the grammar. An algorithm is read from the left: at the start of a
  component, or inside one.
\<close>

definition isHex :: "char \<Rightarrow> bool" where
  "isHex c =
     (isDigit c \<or> (let n = (of_char c :: nat) in (97 \<le> n \<and> n \<le> 102) \<or> (65 \<le> n \<and> n \<le> 70)))"

definition isHexLower :: "char \<Rightarrow> bool" where
  "isHexLower c = (isDigit c \<or> (let n = (of_char c :: nat) in 97 \<le> n \<and> n \<le> 102))"

fun algorithmFrom :: "bool \<Rightarrow> string \<Rightarrow> bool" where
  "algorithmFrom atStart [] = (\<not> atStart)"
| "algorithmFrom atStart (c # cs) =
     (if atStart then (isLower c \<or> isUpper c) \<and> algorithmFrom False cs
      else if isAlnum c then algorithmFrom False cs
      else (c = CHR ''+'' \<or> c = CHR ''.'' \<or> c = CHR ''-'' \<or> c = CHR ''_'')
           \<and> algorithmFrom True cs)"

definition isDigestPattern :: "string \<Rightarrow> bool" where
  "isDigestPattern s =
     (let alg = takeWhile (\<lambda>c. c \<noteq> CHR '':'') s;
          hex = drop (Suc (length alg)) s
      in length alg < length s \<and> algorithmFrom True alg
         \<and> 32 \<le> length hex \<and> list_all isHex hex)"

text \<open>
  \<^verbatim>\<open>digest.Parse\<close> of \<^verbatim>\<open>github.com/opencontainers/go-digest\<close>, on a text of that pattern.
  The algorithms at hand are \<^verbatim>\<open>sha256\<close>, \<^verbatim>\<open>sha384\<close> and \<^verbatim>\<open>sha512\<close>. Another algorithm
  is unsupported when it is written in lower case and digits, and of invalid format
  otherwise. For an algorithm at hand the digits are as many as its length asks, or the
  length is invalid, and are lower-case hexadecimal, or the format is.
\<close>

datatype digest_error = ErrDigestInvalidFormat | ErrDigestInvalidLength | ErrDigestUnsupported

definition digest_Parse :: "string \<Rightarrow> digest_error option" where
  "digest_Parse s =
     (let alg = takeWhile (\<lambda>c. c \<noteq> CHR '':'') s;
          hex = drop (Suc (length alg)) s
      in if alg \<noteq> ''sha256'' \<and> alg \<noteq> ''sha384'' \<and> alg \<noteq> ''sha512''
         then (if list_all (\<lambda>c. \<not> isUpper c) alg then Some ErrDigestUnsupported
               else Some ErrDigestInvalidFormat)
         else if length hex \<noteq> (if alg = ''sha256'' then 64 else if alg = ''sha384'' then 96
                                else 128)
         then Some ErrDigestInvalidLength
         else if list_all isHexLower hex then None
         else Some ErrDigestInvalidFormat)"

text \<open>The three parts of a reference: what stands before \<^verbatim>\<open>@\<close> is cut at the tag's colon.\<close>

definition splitReference :: "string \<Rightarrow> string \<times> string option \<times> string option" where
  "splitReference s =
     (let front = takeWhile (\<lambda>c. c \<noteq> CHR ''@'') s;
          back = dropWhile (\<lambda>c. c \<noteq> CHR ''@'') s;
          dgst = (if back = [] then None else Some (tl back));
          after = rev (takeWhile (\<lambda>c. c \<noteq> CHR '':'') (rev front))
      in if CHR '':'' \<in> set front \<and> CHR ''/'' \<notin> set after
         then (take (length front - Suc (length after)) front, Some after, dgst)
         else (front, None, dgst))"

text \<open>The domain and the path of a name; \<open>None\<close> when it is not a name.\<close>

definition splitName :: "string \<Rightarrow> (string \<times> string) option" where
  "splitName name =
     (let first = takeWhile (\<lambda>c. c \<noteq> CHR ''/'') name;
          rest = drop (Suc (length first)) name
      in if length first < length name \<and> isDomain first \<and> isPath rest
         then Some (first, rest)
         else if isPath name then Some ([], name)
         else None)"

text \<open>Whether the reference expression matches, and the name it captures.\<close>

definition matchReference :: "string \<Rightarrow> bool" where
  "matchReference s =
     (case splitReference s of
        (name, tag, dgst) \<Rightarrow>
          splitName name \<noteq> None
          \<and> (case tag of None \<Rightarrow> True | Some t \<Rightarrow> isTag t)
          \<and> (case dgst of None \<Rightarrow> True | Some d \<Rightarrow> isDigestPattern d))"

datatype reference_error =
    ErrNameEmpty
  | ErrNameContainsUppercase
  | ErrReferenceInvalidFormat
  | ErrNameTooLong
  | ErrDigest digest_error

text \<open>
  A parsed reference. \<open>ref_tag\<close> is empty for a reference that is not
  \<^verbatim>\<open>reference.Tagged\<close>.
\<close>

record reference =
  ref_domain :: string
  ref_path :: string
  ref_tag :: string
  ref_digest :: string

definition reference_Parse :: "string \<Rightarrow> reference_error + reference" where
  "reference_Parse s =
     (if \<not> matchReference s
      then (if s = [] then Inl ErrNameEmpty
            else if matchReference (toLower s) then Inl ErrNameContainsUppercase
            else Inl ErrReferenceInvalidFormat)
      else case splitReference s of
        (name, tag, dgst) \<Rightarrow>
          if 255 < length name then Inl ErrNameTooLong
          else if (case dgst of None \<Rightarrow> False | Some d \<Rightarrow> digest_Parse d \<noteq> None)
          then Inl (ErrDigest (case dgst of
                                 None \<Rightarrow> ErrDigestInvalidFormat
                               | Some d \<Rightarrow>
                                   (case digest_Parse d of
                                      None \<Rightarrow> ErrDigestInvalidFormat
                                    | Some e \<Rightarrow> e)))
          else (case splitName name of
                  None \<Rightarrow> Inl ErrReferenceInvalidFormat
                | Some (d, p) \<Rightarrow>
                    Inr \<lparr>ref_domain = d, ref_path = p,
                         ref_tag = (case tag of None \<Rightarrow> [] | Some t \<Rightarrow> t),
                         ref_digest = (case dgst of None \<Rightarrow> [] | Some d \<Rightarrow> d)\<rparr>))"

text \<open>\<^verbatim>\<open>named.Name()\<close> and \<^verbatim>\<open>reference.Path(named)\<close>.\<close>

definition reference_Name :: "reference \<Rightarrow> string" where
  "reference_Name r =
     (if ref_domain r = [] then ref_path r else ref_domain r @ ''/'' @ ref_path r)"

definition reference_Path :: "reference \<Rightarrow> string" where
  "reference_Path r = ref_path r"

definition newImageWithNewDomain :: "string \<Rightarrow> string \<Rightarrow> string" where
  "newImageWithNewDomain img newDomain =
     (case reference_Parse img of
        Inl err \<Rightarrow> []
      | Inr repo \<Rightarrow>
          let remoteName = reference_Path repo;
              tag = (if ref_tag repo \<noteq> [] then ref_tag repo else ''latest'')
          in Join [newDomain, remoteName @ '':'' @ tag])"

subsection \<open>Errors and integers\<close>

text \<open>
  A Go \<^verbatim>\<open>error\<close> is its message. A run-time panic is no \<^verbatim>\<open>error\<close>: it unwinds through
  every caller, so the functions that can panic return it apart and their callers pass
  it on untouched.
\<close>

datatype error = Err string | Panic string

definition wrap :: "string \<Rightarrow> error \<Rightarrow> error" where
  "wrap prefix e = (case e of Err m \<Rightarrow> Err (prefix @ m) | Panic m \<Rightarrow> Panic m)"

definition message :: "error \<Rightarrow> string" where
  "message e = (case e of Err m \<Rightarrow> m | Panic m \<Rightarrow> m)"

text \<open>
  \<^verbatim>\<open>int32\<close> division truncates towards zero; the divisor is not zero where this is
  used.
\<close>

definition int32_div :: "32 word \<Rightarrow> 32 word \<Rightarrow> 32 word" where
  "int32_div a b = word_of_int (sgn (sint a) * sgn (sint b) * (\<bar>sint a\<bar> div \<bar>sint b\<bar>))"

definition progressOf :: "32 word \<Rightarrow> 32 word \<Rightarrow> error + 32 word" where
  "progressOf count number =
     (if number = 0 then Inl (Panic ''runtime error: integer divide by zero'')
      else Inr (int32_div (count * 100) number))"

subsection \<open>Bounded retry\<close>

text \<open>
  Modelled from the spec: \<^verbatim>\<open>retryutil.Retry\<close> is not among the sources. The spec has each
  image's sequence "wrapped in a bounded retry: up to 3 attempts with a delay between
  attempts; on exhaustion the whole stage fails". So the attempts stop at the first one
  that succeeds, and when the last one allowed has failed, the retry fails with that
  attempt's error. The delay does not show in a model without time. A panic of an
  attempt ends the retry, as it ends every Go function.
\<close>

fun Retry :: "nat \<Rightarrow> nat \<Rightarrow> ('s \<Rightarrow> (bool \<times> error option) \<times> 's) \<Rightarrow> 's \<Rightarrow> error option \<times> 's" where
  "Retry interval 0 f s = (Some (Err ''still failing after 0 retries''), s)"
| "Retry interval (Suc n) f s =
     (case f s of
        ((ok, Some (Panic m)), s') \<Rightarrow> (Some (Panic m), s')
      | ((True, None), s') \<Rightarrow> (None, s')
      | ((ok, err), s') \<Rightarrow>
          if n = 0
          then (Some (case err of Some e \<Rightarrow> e | None \<Rightarrow> Err ''still failing after retries''), s')
          else Retry interval n f s')"

subsection \<open>The image engine\<close>

text \<open>
  The engine's replies are streams of JSON messages. The loops over them stop at the
  first message that does not decode or that carries an error. The context of a pass is
  cancelled only when \<^verbatim>\<open>Reconcile\<close> returns, so the \<^verbatim>\<open>ctx.Done()\<close> branch of the loops is
  never taken.
\<close>

fun drain :: "body \<Rightarrow> error option" where
  "drain EOF = None"
| "drain (DecodeError e) = Some (Err (''failed to decode json message: '' @ e))"
| "drain (Msg jm rest) =
     (case Error jm of
        Some e \<Rightarrow> Some (Err (''error detail: '' @ e))
      | None \<Rightarrow> drain rest)"

fun loaded :: "string \<Rightarrow> body \<Rightarrow> error + string" where
  "loaded imageName EOF = Inr imageName"
| "loaded imageName (DecodeError e) = Inl (Err (''failed to decode json message: '' @ e))"
| "loaded imageName (Msg jm rest) =
     (case Error jm of
        Some e \<Rightarrow> Inl (Err (''error detail: '' @ e))
      | None \<Rightarrow>
          let img = parseImageName (Stream jm)
          in loaded (if img \<noteq> [] then img else imageName) rest)"

definition emitted :: "event \<Rightarrow> pkg \<Rightarrow> pkg" where
  "emitted e p = p\<lparr>env := emit e (env p)\<rparr>"

definition imageLoad :: "world \<Rightarrow> string \<Rightarrow> pkg \<Rightarrow> (error + string) \<times> pkg" where
  "imageLoad w file p =
     (case openFile w (trace (env p)) file of
        Some e \<Rightarrow> (Inl (Err (''open file '' @ file @ '': '' @ e)), emitted (EvOpen file) p)
      | None \<Rightarrow>
          let p1 = emitted (EvOpen file) p
          in (case imageLoadStream w (trace (env p1)) file of
                Inl e \<Rightarrow>
                  (Inl (Err (''path: '' @ file @ ''; failed to load images: '' @ e)),
                   emitted (EvImageLoad file) p1)
              | Inr res \<Rightarrow>
                  (case loaded [] (case res of None \<Rightarrow> EOF | Some b \<Rightarrow> b) of
                     Inl e \<Rightarrow> (Inl e, emitted (EvImageLoad file) p1)
                   | Inr imageName \<Rightarrow>
                       if imageName = []
                       then (Inl (Err ''not parse image name''), emitted (EvImageLoad file) p1)
                       else (Inr imageName, emitted (EvImageLoad file) p1))))"

text \<open>
  The credentials of a push or a pull are an argument the engine reads; encoding a pair
  of strings as JSON cannot fail.
\<close>

definition imagePush :: "world \<Rightarrow> string \<Rightarrow> pkg \<Rightarrow> error option \<times> pkg" where
  "imagePush w img p =
     (case imagePushStream w (trace (env p)) img of
        Inl e \<Rightarrow> (Some (Err e), emitted (EvImagePush img) p)
      | Inr res \<Rightarrow>
          (case res of
             None \<Rightarrow> (None, emitted (EvImagePush img) p)
           | Some b \<Rightarrow> (drain b, emitted (EvImagePush img) p)))"

definition imagePull :: "world \<Rightarrow> string \<Rightarrow> pkg \<Rightarrow> error option \<times> pkg" where
  "imagePull w img p =
     (case parseAnyReference w img of
        Inl e \<Rightarrow> (Some (Err e), p)
      | Inr rf \<Rightarrow>
          (case imagePullStream w (trace (env p)) rf of
             Inl e \<Rightarrow>
               (Some (Err (''pull image '' @ img @ '' failure '' @ e)), emitted (EvImagePull rf) p)
           | Inr res \<Rightarrow>
               (case res of
                  None \<Rightarrow> (None, emitted (EvImagePull rf) p)
                | Some b \<Rightarrow> (drain b, emitted (EvImagePull rf) p))))"

definition imageTagCall :: "world \<Rightarrow> string \<Rightarrow> string \<Rightarrow> pkg \<Rightarrow> string option \<times> pkg" where
  "imageTagCall w source target p =
     (imageTag w (trace (env p)) source target, emitted (EvImageTag source target) p)"

definition reference_error_message :: "reference_error \<Rightarrow> string" where
  "reference_error_message e =
     (case e of
        ErrNameEmpty \<Rightarrow> ''repository name must have at least one component''
      | ErrNameContainsUppercase \<Rightarrow> ''repository name must be lowercase''
      | ErrReferenceInvalidFormat \<Rightarrow> ''invalid reference format''
      | ErrNameTooLong \<Rightarrow> ''repository name must not be more than 255 characters''
      | ErrDigest ErrDigestInvalidFormat \<Rightarrow> ''invalid checksum digest format''
      | ErrDigest ErrDigestInvalidLength \<Rightarrow> ''invalid checksum digest length''
      | ErrDigest ErrDigestUnsupported \<Rightarrow> ''unsupported digest algorithm'')"

definition checkIfImageExists :: "world \<Rightarrow> string \<Rightarrow> pkg \<Rightarrow> (error + bool) \<times> pkg" where
  "checkIfImageExists w img p =
     (case reference_Parse img of
        Inl e \<Rightarrow> (Inl (Err (''parse image '' @ img @ '': '' @ reference_error_message e)), p)
      | Inr repo \<Rightarrow>
          let tag = (if ref_tag repo \<noteq> [] then ref_tag repo else ''latest'');
              imageFullName = reference_Name repo @ '':'' @ tag
          in (case imageList w (trace (env p)) imageFullName of
                Inl e \<Rightarrow>
                  (Inl (Err (''list images: '' @ e)), emitted (EvImageList imageFullName) p)
              | Inr n \<Rightarrow> (Inr (0 < n), emitted (EvImageList imageFullName) p)))"

subsection \<open>Progress reported beside a blocking call\<close>

text \<open>
  While a download or an extraction blocks, a goroutine samples its progress on a
  ticker and writes it to the condition, updating the status when the value changed; an
  error of that update is ignored. The world gives the samples taken during the call;
  the model applies them in order before the call returns.
\<close>

fun reportProgress :: "world \<Rightarrow> PackageConditionType \<Rightarrow> 32 word list \<Rightarrow> pkg \<Rightarrow> pkg" where
  "reportProgress w typ3 [] p = p"
| "reportProgress w typ3 (v # vs) p =
     (case updateConditionProgress w typ3 v p of
        (True, p1) \<Rightarrow> reportProgress w typ3 vs (snd (pkg_updateCRStatus w p1))
      | (False, p1) \<Rightarrow> reportProgress w typ3 vs p1)"

subsection \<open>The download stage\<close>

text \<open>
  \<open>checkMD5\<close> is true when the file is there and its checksum is the wanted one. The
  samples of a download are the values \<^verbatim>\<open>realProgress\<close> the reporter computes (a
  percentage less a twentieth, in floating point); the model takes them as the world
  gives them.
\<close>

text \<open>
  One call of \<^verbatim>\<open>downloadListener.Download()\<close>, with what the reporter writes while it
  blocks.
\<close>

definition Download :: "world \<Rightarrow> pkg \<Rightarrow> string option \<times> pkg" where
  "Download w p =
     (snd (download w (trace (env p))),
      reportProgress w DownloadPackage (fst (download w (trace (env p))))
        (emitted EvDownload p))"

definition donwnloadPackage :: "world \<Rightarrow> pkg \<Rightarrow> error option \<times> pkg" where
  "donwnloadPackage w p =
     (if checkMD5 w (trace (env p)) then (None, emitted EvCheckMD5 p)
      else (case Download w (emitted EvCheckMD5 p) of
              (None, p1) \<Rightarrow> (None, p1)
            | (Some e, p1) \<Rightarrow>
                (case Download w
                        (snd (pkg_updateCRStatus w
                                (updateConditionResion w Init e
                                   ''download rainbond package error, will retry'' p1))) of
                   (None, p3) \<Rightarrow> (None, p3)
                 | (Some e2, p3) \<Rightarrow> (Some (Err e2), p3))))"

subsection \<open>The unpack stage\<close>

text \<open>
  The samples of an extraction are the values of \<^verbatim>\<open>countImages(pkgDst)\<close> at the ticks.
  A division by zero in the reporter is a panic of the process.
\<close>

fun reportUnpack :: "world \<Rightarrow> 32 word list \<Rightarrow> pkg \<Rightarrow> error option \<times> pkg" where
  "reportUnpack w [] p = (None, p)"
| "reportUnpack w (num # nums) p =
     (case progressOf num (totalImageNum p) of
        Inl e \<Rightarrow> (Some e, p)
      | Inr progress \<Rightarrow>
          (case updateConditionProgress w UnpackPackage progress p of
             (True, p1) \<Rightarrow> reportUnpack w nums (snd (pkg_updateCRStatus w p1))
           | (False, p1) \<Rightarrow> reportUnpack w nums p1))"

definition untartar :: "world \<Rightarrow> pkg \<Rightarrow> error option \<times> pkg" where
  "untartar w p =
     (case openFile w (trace (env p)) (PkgPath (pkg p)) of
        Some e \<Rightarrow> (Some (Err e), emitted (EvOpen (PkgPath (pkg p))) p)
      | None \<Rightarrow>
          let p1 = emitted (EvOpen (PkgPath (pkg p))) p
          in (case reportUnpack w (fst (untar w (trace (env p1)))) (emitted EvUntartar p1) of
                (Some e, p2) \<Rightarrow> (Some e, p2)
              | (None, p2) \<Rightarrow>
                  (case snd (untar w (trace (env p1))) of
                     None \<Rightarrow> (None, p2)
                   | Some e \<Rightarrow> (Some (Err e), p2))))"

subsection \<open>The push stage: pull and push\<close>

text \<open>One attempt at an image: the function handed to the retry.\<close>

definition handleImgae ::
  "world \<Rightarrow> string \<Rightarrow> string \<Rightarrow> pkg \<Rightarrow> (bool \<times> error option) \<times> pkg" where
  "handleImgae w remoteImage localImage p =
     (case checkIfImageExists w remoteImage p of
        (Inl e, p1) \<Rightarrow> ((False, Some (wrap ''check if image exists: '' e)), p1)
      | (Inr existing, p1) \<Rightarrow>
          (case (if \<not> existing then imagePull w remoteImage p1 else (None, p1)) of
             (Some e, p2) \<Rightarrow>
               ((False, Some (Err (''pull image '' @ remoteImage @ '' failure '' @ message e))), p2)
           | (None, p2) \<Rightarrow>
               (case imageTagCall w remoteImage localImage p2 of
                  (Some e, p3) \<Rightarrow>
                    ((False, Some (Err (''change image tag('' @ remoteImage @ '' => ''
                        @ localImage @ '') failure: '' @ e))), p3)
                | (None, p3) \<Rightarrow>
                    (case imagePush w localImage p3 of
                       (Some e, p4) \<Rightarrow>
                         ((False, Some (Err (''push image '' @ localImage @ '' failure ''
                             @ message e))), p4)
                     | (None, p4) \<Rightarrow> ((True, None), p4)))))"

definition pushed :: "string \<Rightarrow> pkg \<Rightarrow> pkg" where
  "pushed name p = p\<lparr>pkg := (pkg p)\<lparr>ImagesPushed := ImagesPushed (pkg p) @ [name]\<rparr>\<rparr>"

text \<open>
  The loop over \<^verbatim>\<open>p.images\<close>. Go ranges over a map in an order it does not fix; the list
  is that order.
\<close>

fun pullLoop :: "world \<Rightarrow> (string \<times> string) list \<Rightarrow> 32 word \<Rightarrow> pkg \<Rightarrow> error option \<times> pkg" where
  "pullLoop w [] count p = (None, p)"
| "pullLoop w ((old, new) # rest) count p =
     (case Retry 2 3 (handleImgae w (Join [downloadImageDomain p, old])
                        (Join [pushImageDomain p, new])) p of
        (Some e, p1) \<Rightarrow> (Some e, p1)
      | (None, p1) \<Rightarrow>
          (case progressOf (count + 1) (ImagesNumber (pkg p1)) of
             Inl e \<Rightarrow> (Some e, pushed (Join [pushImageDomain p, new]) p1)
           | Inr progress \<Rightarrow>
               (case updateConditionProgress w PushImage progress
                       (pushed (Join [pushImageDomain p, new]) p1) of
                  (True, p3) \<Rightarrow>
                    (case pkg_updateCRStatus w p3 of
                       (Some e, p4) \<Rightarrow> (Some (Err (''update cr status: '' @ e)), p4)
                     | (None, p4) \<Rightarrow> pullLoop w rest (count + 1) p4)
                | (False, p3) \<Rightarrow> pullLoop w rest (count + 1) p3)))"

definition imagePullAndPush :: "world \<Rightarrow> pkg \<Rightarrow> error option \<times> pkg" where
  "imagePullAndPush w p =
     pullLoop w (images p) 0
       (p\<lparr>pkg := (pkg p)\<lparr>ImagesNumber := of_nat (length (images p)), ImagesPushed := []\<rparr>\<rparr>)"

subsection \<open>The push stage: load and push\<close>

text \<open>
  \<open>walk w\<close> is what \<^verbatim>\<open>filepath.Walk(pkgDst, ...)\<close> visits, in order, with the error it hands
  to the function for each path, and \<open>IsFile w\<close> is \<^verbatim>\<open>commonutil.IsFile\<close> on that
  directory. A pass that pushes does not write under \<^verbatim>\<open>pkgDst\<close>, so the count and the
  walk that follows it see one directory.
\<close>

definition countImages :: "world \<Rightarrow> 32 word" where
  "countImages w =
     fold (\<lambda>(pstr, err) count.
             if err \<noteq> None then count
             else if \<not> IsFile w pstr then count
             else if \<not> validateFile pstr then count
             else count + 1)
          (walk w) 0"

text \<open>
  One attempt at a file: the function \<^verbatim>\<open>f\<close> handed to the retry. It shares the counter
  \<^verbatim>\<open>count\<close> with the walk. \<open>GetImageRepository w\<close> is what
  \<^verbatim>\<open>rbdutil.GetImageRepository(p.cluster)\<close> returns, a function that is not among the
  sources.
\<close>

definition loadAndPush ::
  "world \<Rightarrow> string \<Rightarrow> 32 word \<times> pkg \<Rightarrow> (bool \<times> error option) \<times> 32 word \<times> pkg" where
  "loadAndPush w pstr cp =
     (case imageLoad w pstr (snd cp) of
        (Inl e, p1) \<Rightarrow> ((False, Some (wrap ''load image: '' e)), fst cp, p1)
      | (Inr img, p1) \<Rightarrow>
          if newImageWithNewDomain img (GetImageRepository w) = []
          then ((False, Some (Err ''parse image name failure'')), fst cp, p1)
          else
            (case imageTagCall w img (newImageWithNewDomain img (GetImageRepository w)) p1 of
               (Some e, p2) \<Rightarrow> ((False, Some (Err (''tag image: '' @ e))), fst cp, p2)
             | (None, p2) \<Rightarrow>
                 (case imagePush w (newImageWithNewDomain img (GetImageRepository w)) p2 of
                    (Some e, p3) \<Rightarrow>
                      ((False, Some (Err (''push image ''
                          @ newImageWithNewDomain img (GetImageRepository w) @ '': ''
                          @ message e))), fst cp, p3)
                  | (None, p3) \<Rightarrow>
                      (case progressOf (fst cp + 1) (ImagesNumber (pkg p3)) of
                         Inl e \<Rightarrow>
                           ((False, Some e), fst cp + 1,
                            pushed (newImageWithNewDomain img (GetImageRepository w)) p3)
                       | Inr progress \<Rightarrow>
                           (case updateConditionProgress w PushImage progress
                                   (pushed (newImageWithNewDomain img (GetImageRepository w)) p3) of
                              (True, p5) \<Rightarrow>
                                (case pkg_updateCRStatus w p5 of
                                   (Some e, p6) \<Rightarrow>
                                     ((False, Some (Err (''update cr status: '' @ e))),
                                      fst cp + 1, p6)
                                 | (None, p6) \<Rightarrow> ((True, None), fst cp + 1, p6))
                            | (False, p5) \<Rightarrow> ((True, None), fst cp + 1, p5))))))"

fun walkLoop ::
  "world \<Rightarrow> (string \<times> string option) list \<Rightarrow> 32 word \<times> pkg \<Rightarrow> error option \<times> 32 word \<times> pkg" where
  "walkLoop w [] cp = (None, cp)"
| "walkLoop w ((pstr, err) # rest) cp =
     (case err of
        Some e \<Rightarrow>
          (Some (Err (''prevent panic by handling failure accessing a path '' @ [CHR 0x22]
             @ pstr @ [CHR 0x22] @ '': '' @ e)), cp)
      | None \<Rightarrow>
          if \<not> IsFile w pstr then walkLoop w rest cp
          else if \<not> validateFile pstr then walkLoop w rest cp
          else (case Retry 1 3 (loadAndPush w pstr) cp of
                  (Some e, cp') \<Rightarrow> (Some e, cp')
                | (None, cp') \<Rightarrow> walkLoop w rest cp'))"

definition imagesLoadAndPush :: "world \<Rightarrow> pkg \<Rightarrow> error option \<times> pkg" where
  "imagesLoadAndPush w p =
     (case walkLoop w (walk w)
             (0, p\<lparr>pkg := (pkg p)\<lparr>ImagesNumber := countImages w, ImagesPushed := []\<rparr>\<rparr>) of
        (r, cp) \<Rightarrow> (r, snd cp))"

subsection \<open>The precondition gate\<close>

definition errorClusterConfigNotReady :: error where
  "errorClusterConfigNotReady = Err ''cluster config can not be ready''"

definition errorClusterConfigNoLocalHub :: error where
  "errorClusterConfigNoLocalHub = Err ''cluster spec not have local image hub info ''"

definition isImageRepositoryReady :: "pkg \<Rightarrow> bool" where
  "isImageRepositoryReady p =
     (case ImageRepositoryCondition (cluster p) of
        None \<Rightarrow> False
      | Some st \<Rightarrow> st = ConditionTrue)"

text \<open>
  \<^verbatim>\<open>p.images\<close> is a Go map, and the order in which \<^verbatim>\<open>range\<close> visits a map is not fixed by
  the language. The field \<open>images\<close> holds the entries in the order the range of
  \<^verbatim>\<open>imagePullAndPush\<close> will visit them, and that order is the world's: \<open>rangeOrder w\<close>
  proposes it, and it is taken when it is a rearrangement of the entries.
\<close>

definition rearranges :: "'a list \<Rightarrow> 'a list \<Rightarrow> bool" where
  "rearranges ys xs =
     (length ys = length xs \<and> list_all (\<lambda>x. count_list ys x = count_list xs x) xs)"

definition ranged :: "world \<Rightarrow> (string \<times> string) list \<Rightarrow> (string \<times> string) list" where
  "ranged w entries =
     (if rearranges (rangeOrder w entries) entries then rangeOrder w entries else entries)"

definition configByCluster :: "world \<Rightarrow> RainbondCluster \<Rightarrow> pkg \<Rightarrow> error option \<times> pkg" where
  "configByCluster w c p =
     (if \<not> ConfigCompleted c then (Some errorClusterConfigNotReady, p)
      else if \<not> isImageRepositoryReady p then (Some errorClusterConfigNoLocalHub, p)
      else
        let p1 = (if InstallVersion c \<noteq> [] then p\<lparr>version := InstallVersion c\<rparr> else p);
            ciVersion = (if CIVersion c = [] then ''v5.3.3'' else CIVersion c)
        in (None,
            p1\<lparr>localPackagePath := PkgPath (pkg p1),
                images :=
                  ranged w
                    [(''/builder:'' @ ciVersion, ''/builder''),
                     (''/runner:'' @ ciVersion, ''/runner''),
                     (''/rbd-init-probe:'' @ version p1, ''/rbd-init-probe''),
                     (''/rbd-mesh-data-panel:'' @ version p1, ''/rbd-mesh-data-panel''),
                     (''/plugins-tcm:5.1.7'', ''/tcm'')]\<rparr>))"

text \<open>\<open>DefImageRepository w\<close> is the constant \<^verbatim>\<open>constants.DefImageRepository\<close>.\<close>

definition checkClusterConfig :: "world \<Rightarrow> pkg \<Rightarrow> error option \<times> pkg" where
  "checkClusterConfig w p =
     (case configByCluster w (cluster p) p of
        (Some e, p1) \<Rightarrow> (Some e, p1)
      | (None, p1) \<Rightarrow>
          let d = RainbondImageRepository (cluster p1);
              p2 = p1\<lparr>downloadImageDomain := (if d = [] then ''rainbond'' else d)\<rparr>;
              p3 = (case ImageHub (cluster p2) of
                      None \<Rightarrow> p2
                    | Some hub \<Rightarrow>
                        p2\<lparr>pushImageDomain :=
                             (if Namespace hub \<noteq> [] then Domain hub @ ''/'' @ Namespace hub
                              else Domain hub)\<rparr>)
          in (None,
              if pushImageDomain p3 = [] then p3\<lparr>pushImageDomain := DefImageRepository w\<rparr>
              else p3))"

subsection \<open>One pass over the stages\<close>

text \<open>
  The error of \<^verbatim>\<open>p.updateCRStatus()\<close> as the value a stage returns.
\<close>

definition returnUpdate :: "world \<Rightarrow> pkg \<Rightarrow> error option \<times> pkg" where
  "returnUpdate w p = (case pkg_updateCRStatus w p of (r, p1) \<Rightarrow> (map_option Err r, p1))"

text \<open>
  Marking a stage failed: the three statements every failure branch of \<^verbatim>\<open>handle\<close> runs
  before it returns its error.
\<close>

definition failStage :: "world \<Rightarrow> PackageConditionType \<Rightarrow> string \<Rightarrow> string \<Rightarrow> pkg \<Rightarrow> pkg" where
  "failStage w typ3 resion msg p =
     snd (pkg_updateCRStatus w
            (updateConditionResion w typ3 resion msg (updateConditionStatus w typ3 Failed p)))"

text \<open>The body of \<^verbatim>\<open>if p.canDownload() { ... }\<close>.\<close>

definition handleDownload :: "world \<Rightarrow> pkg \<Rightarrow> error option \<times> pkg" where
  "handleDownload w p =
     (case donwnloadPackage w p of
        (Some e, p1) \<Rightarrow>
          (Some (Err (''failed to download package '' @ message e)),
           failStage w DownloadPackage (message e) ''download package failure'' p1)
      | (None, p1) \<Rightarrow> returnUpdate w (updateConditionStatus w DownloadPackage Completed p1))"

text \<open>The body of \<^verbatim>\<open>if p.canUnpack() { ... }\<close>.\<close>

definition handleUnpack :: "world \<Rightarrow> pkg \<Rightarrow> error option \<times> pkg" where
  "handleUnpack w p =
     (case untartar w p of
        (Some (Panic m), p1) \<Rightarrow> (Some (Panic m), p1)
      | (Some (Err m), p1) \<Rightarrow>
          (Some (Err (''failed to untar '' @ PkgPath (pkg p1) @ '': '' @ m)),
           failStage w UnpackPackage m ''unpack package failure'' p1)
      | (None, p1) \<Rightarrow> returnUpdate w (updateConditionStatus w UnpackPackage Completed p1))"

text \<open>The body of \<^verbatim>\<open>if p.canPushImage() { ... }\<close>.\<close>

definition handlePushImage :: "world \<Rightarrow> pkg \<Rightarrow> error option \<times> pkg" where
  "handlePushImage w p =
     (if downloadPackage p
      then (case imagesLoadAndPush w p of
              (Some (Panic m), p1) \<Rightarrow> (Some (Panic m), p1)
            | (Some (Err m), p1) \<Rightarrow>
                (Some (Err (''failed to load and push images: '' @ m)),
                 failStage w PushImage m ''load and push images failure'' p1)
            | (None, p1) \<Rightarrow> returnUpdate w (updateConditionStatus w PushImage Completed p1))
      else (case imagePullAndPush w p of
              (Some (Panic m), p1) \<Rightarrow> (Some (Panic m), p1)
            | (Some (Err m), p1) \<Rightarrow>
                (Some (Err (''failed to pull and push images: '' @ m)),
                 failStage w PushImage m ''pull and push images failure'' p1)
            | (None, p1) \<Rightarrow> returnUpdate w (updateConditionStatus w PushImage Completed p1)))"

definition handle :: "world \<Rightarrow> pkg \<Rightarrow> error option \<times> pkg" where
  "handle w p =
     (case checkClusterConfig w p of
        (Some e, p0) \<Rightarrow>
          if e = errorClusterConfigNotReady \<or> e = errorClusterConfigNoLocalHub
          then (Some e, p0)
          else (Some e,
                snd (pkg_updateCRStatus w
                       (updateConditionResion w Init (message e)
                          ''get rainbond cluster config failure''
                          (updateConditionStatus w Init Waiting p0))))
      | (None, p0) \<Rightarrow>
          (case setInitStatus w p0 of
             (Some e, p1) \<Rightarrow> (Some (Err e), failStage w Init e ''set init status failure'' p1)
           | (None, p1) \<Rightarrow>
               (case canDownload w p1 of
                  (True, p2) \<Rightarrow> handleDownload w p2
                | (False, p2) \<Rightarrow>
                    (case canUnpack w p2 of
                       (True, p3) \<Rightarrow> handleUnpack w p3
                     | (False, p3) \<Rightarrow>
                         if canPushImage p3 then handlePushImage w p3
                         else if canReady p3
                         then returnUpdate w (updateConditionStatus w Ready Completed p3)
                         else (None, p3)))))"

subsection \<open>The reconciliation entry point\<close>

definition newCondition ::
  "PackageConditionType \<Rightarrow> PackageConditionStatus \<Rightarrow> nat \<Rightarrow> nat \<Rightarrow> PackageCondition" where
  "newCondition typ3 status heartbeat transition =
     \<lparr>Type = typ3, Status = status, LastHeartbeatTime = heartbeat,
      LastTransitionTime = transition, Reason = [], Message = [], Progress = 0\<rparr>"

text \<open>
  \<^verbatim>\<open>pkg.Status = initPackageStatus(status)\<close>: the whole status is replaced. The literal
  reads the clock ten times.
\<close>

definition initPackageStatus ::
  "world \<Rightarrow> PackageConditionStatus \<Rightarrow> RainbondPackage \<Rightarrow> env \<Rightarrow> RainbondPackage \<times> env" where
  "initPackageStatus w status obj v =
     (obj\<lparr>Conditions :=
            [newCondition Init status (Now w (nows v)) (Now w (nows v + 1)),
             newCondition DownloadPackage status (Now w (nows v + 2)) (Now w (nows v + 3)),
             newCondition UnpackPackage status (Now w (nows v + 4)) (Now w (nows v + 5)),
             newCondition PushImage status (Now w (nows v + 6)) (Now w (nows v + 7)),
             newCondition Ready status (Now w (nows v + 8)) (Now w (nows v + 9))],
          ImagesNumber := 0, ImagesPushed := []\<rparr>,
      v\<lparr>nows := nows v + 10\<rparr>)"

text \<open>
  A \<^verbatim>\<open>reconcile.Result\<close> is its \<^verbatim>\<open>RequeueAfter\<close> in seconds; \<^verbatim>\<open>reconcile.Result{}\<close> is 0.
  The loop of \<^verbatim>\<open>checkStatusCanReturn\<close> returns from inside (\<open>Inl\<close>, with the result
  pointer) or runs to its end (\<open>Inr\<close>, with the number of completed conditions).
\<close>

fun statusLoop :: "PackageCondition list \<Rightarrow> nat \<Rightarrow> nat option + nat" where
  "statusLoop [] completedCount = Inr completedCount"
| "statusLoop (cond # conds) completedCount =
     (if Status cond = Running then Inl (Some 0)
      else if Status cond = Failed then Inl None
      else statusLoop conds
             (if Status cond = Completed then Suc completedCount else completedCount))"

definition checkStatusCanReturn ::
  "world \<Rightarrow> RainbondPackage \<Rightarrow> env \<Rightarrow> bool \<times> nat option \<times> RainbondPackage \<times> env" where
  "checkStatusCanReturn w obj v =
     (if length (Conditions obj) = 0
      then (case initPackageStatus w Waiting obj v of (obj1, v1) \<Rightarrow> (True, Some 0, obj1, v1))
      else (case statusLoop (Conditions obj) 0 of
              Inl re \<Rightarrow> (False, re, obj, v)
            | Inr completedCount \<Rightarrow>
                if completedCount = length (Conditions obj) then (False, Some 0, obj, v)
                else (False, None, obj, v)))"

text \<open>
  \<^verbatim>\<open>newpkg\<close> copies the package and leaves every field it does not name at its zero
  value: \<^verbatim>\<open>downloadPackage\<close> is false.
\<close>

definition newpkg :: "world \<Rightarrow> RainbondPackage \<Rightarrow> RainbondCluster \<Rightarrow> env \<Rightarrow> error + pkg" where
  "newpkg w obj c v =
     (case newDockerClient w of
        Some e \<Rightarrow> Inl (Err (''create new docker client: '' @ e))
      | None \<Rightarrow>
          Inr \<lparr>pkg = obj, cluster = c, downloadPackage = False, localPackagePath = [],
               downloadPackageURL = [], downloadPackageMD5 = [], downloadImageDomain = [],
               pushImageDomain = [], totalImageNum = 23, images = [],
               version = InstallVersion c, env = v\<rparr>)"

text \<open>
  What a pass leaves: the result, the error, the package object as the pass last held it
  in memory, and the world.
\<close>

record pass =
  RequeueAfter :: nat
  failure :: "error option"
  object :: "RainbondPackage option"
  after :: env

definition start :: env where
  "start = \<lparr>trace = [], nows = 0, stored = None\<rparr>"

text \<open>
  The end of \<^verbatim>\<open>Reconcile\<close>, from \<^verbatim>\<open>//need handle condition\<close> on: the handle is made and
  \<^verbatim>\<open>handle\<close> runs. \<^verbatim>\<open>newpkg\<close> returns no handle with an error, so nothing is written
  when it fails. A panic of \<^verbatim>\<open>handle\<close> leaves \<^verbatim>\<open>Reconcile\<close> as a panic.
\<close>

definition handlePackage :: "world \<Rightarrow> RainbondPackage \<Rightarrow> RainbondCluster \<Rightarrow> env \<Rightarrow> pass" where
  "handlePackage w obj c v =
     (case newpkg w obj c v of
        Inl e \<Rightarrow> \<lparr>RequeueAfter = 5, failure = None, object = Some obj, after = v\<rparr>
      | Inr p \<Rightarrow>
          (case handle w p of
             (Some (Panic m), p1) \<Rightarrow>
               \<lparr>RequeueAfter = 0, failure = Some (Panic m), object = Some (pkg p1),
                after = env p1\<rparr>
           | (Some (Err m), p1) \<Rightarrow>
               \<lparr>RequeueAfter = 8, failure = None, object = Some (pkg p1), after = env p1\<rparr>
           | (None, p1) \<Rightarrow>
               \<lparr>RequeueAfter = 0, failure = None, object = Some (pkg p1), after = env p1\<rparr>))"

text \<open>The package after \<^verbatim>\<open>updateCRStatus(r.Client, pkg)\<close>, and the result for its error.\<close>

definition updated :: "world \<Rightarrow> RainbondPackage \<Rightarrow> env \<Rightarrow> pass" where
  "updated w obj v =
     (case updateCRStatus w obj v of
        (Some e, v1) \<Rightarrow> \<lparr>RequeueAfter = 5, failure = None, object = Some obj, after = v1\<rparr>
      | (None, v1) \<Rightarrow> \<lparr>RequeueAfter = 0, failure = None, object = Some obj, after = v1\<rparr>)"

definition Reconcile :: "world \<Rightarrow> pass" where
  "Reconcile w =
     (case getPackage w of
        NotFound \<Rightarrow> \<lparr>RequeueAfter = 0, failure = None, object = None, after = start\<rparr>
      | GetError e \<Rightarrow> \<lparr>RequeueAfter = 0, failure = Some (Err e), object = None, after = start\<rparr>
      | Found obj \<Rightarrow>
          (case getCluster w of
             NotFound \<Rightarrow>
               \<lparr>RequeueAfter = 3, failure = None, object = Some obj, after = start\<rparr>
           | GetError e \<Rightarrow>
               \<lparr>RequeueAfter = 3, failure = None, object = Some obj, after = start\<rparr>
           | Found c \<Rightarrow>
               if \<not> ConfigCompleted c
               then \<lparr>RequeueAfter = 3, failure = None, object = Some obj, after = start\<rparr>
               else if InstallMode c = InstallationModeFullOnline
               then (case initPackageStatus w Completed obj start of
                       (obj1, v1) \<Rightarrow> updated w obj1 v1)
               else (case checkStatusCanReturn w obj start of
                       (updateStatus, re, obj1, v1) \<Rightarrow>
                         if updateStatus then updated w obj1 v1
                         else (case re of
                                 Some r \<Rightarrow>
                                   \<lparr>RequeueAfter = r, failure = None, object = Some obj1,
                                    after = v1\<rparr>
                               | None \<Rightarrow> handlePackage w obj1 c v1))))"

subsection \<open>A package, a cluster and a world to run the model on\<close>

text \<open>
  A package whose download has failed, a cluster that is configured and has its image
  repository ready, and a world in which every call succeeds on an empty engine.
\<close>

definition examplePackage :: RainbondPackage where
  "examplePackage =
     \<lparr>PkgPath = ''/opt/rainbond/pkg/rainbond.tgz'', ImageHubUser = [], ImageHubPass = [],
      Conditions =
        [newCondition Init Completed 1 1, newCondition DownloadPackage Failed 2 2,
         newCondition UnpackPackage Waiting 3 3, newCondition PushImage Waiting 4 4,
         newCondition Ready Waiting 5 5],
      ImagesNumber = 0, ImagesPushed = []\<rparr>"

definition exampleCluster :: RainbondCluster where
  "exampleCluster =
     \<lparr>ConfigCompleted = True, InstallMode = InstallationModeOther ''WithoutPackage'',
      InstallVersion = ''v5.3.0'', CIVersion = [], RainbondImageRepository = [],
      ImageHub = None, ImageRepositoryCondition = Some ConditionTrue\<rparr>"

definition exampleWorld :: world where
  "exampleWorld =
     \<lparr>Now = (\<lambda>k. 100 + k), getPackage = Found examplePackage,
      getCluster = Found exampleCluster, newDockerClient = None,
      statusUpdate = (\<lambda>tr. None), checkMD5 = (\<lambda>tr. False),
      download = (\<lambda>tr. ([], None)), openFile = (\<lambda>tr file. None),
      untar = (\<lambda>tr. ([], None)), imageList = (\<lambda>tr name. Inr 0),
      imagePullStream = (\<lambda>tr name. Inr None), imageTag = (\<lambda>tr source target. None),
      imagePushStream = (\<lambda>tr name. Inr None), imageLoadStream = (\<lambda>tr file. Inr None),
      parseAnyReference = (\<lambda>name. Inr name), rangeOrder = (\<lambda>entries. entries),
      walk = [], IsFile = (\<lambda>file. True),
      GetImageRepository = ''goodrain.me'', DefImageRepository = ''goodrain.me''\<rparr>"

text \<open>The handle \<open>newpkg\<close> makes of them.\<close>

definition exampleHandle :: pkg where
  "exampleHandle =
     \<lparr>pkg = examplePackage, cluster = exampleCluster, downloadPackage = False,
      localPackagePath = [], downloadPackageURL = [], downloadPackageMD5 = [],
      downloadImageDomain = [], pushImageDomain = [], totalImageNum = 23, images = [],
      version = ''v5.3.0'', env = start\<rparr>"

text \<open>The example handle with a status as \<open>initPackageStatus\<close> makes it, all waiting.\<close>

definition waitingHandle :: pkg where
  "waitingHandle =
     exampleHandle\<lparr>pkg := fst (initPackageStatus exampleWorld Waiting examplePackage start)\<rparr>"

text \<open>The example handle once the download and the unpacking are completed.\<close>

definition unpackedHandle :: pkg where
  "unpackedHandle =
     exampleHandle\<lparr>pkg := examplePackage\<lparr>Conditions :=
        [newCondition Init Completed 1 1, newCondition DownloadPackage Completed 2 2,
         newCondition UnpackPackage Completed 3 3, newCondition PushImage Waiting 4 4,
         newCondition Ready Waiting 5 5]\<rparr>\<rparr>"

text \<open>The example world with an engine that answers no listing.\<close>

definition brokenEngine :: world where
  "brokenEngine = exampleWorld\<lparr>imageList := (\<lambda>tr name. Inl ''daemon down'')\<rparr>"

text \<open>A package that has no condition yet, and worlds that hold it.\<close>

definition emptyPackage :: RainbondPackage where
  "emptyPackage = examplePackage\<lparr>Conditions := []\<rparr>"

definition freshWorld :: world where
  "freshWorld = exampleWorld\<lparr>getPackage := Found emptyPackage\<rparr>"

definition unconfiguredWorld :: world where
  "unconfiguredWorld =
     freshWorld\<lparr>getCluster := Found (exampleCluster\<lparr>ConfigCompleted := False\<rparr>)\<rparr>"

definition fullOnlineWorld :: world where
  "fullOnlineWorld =
     freshWorld\<lparr>getCluster := Found (exampleCluster\<lparr>InstallMode := InstallationModeFullOnline\<rparr>)\<rparr>"

text \<open>
  A handle that has a bundle to download, and a world whose transfers all fail.
\<close>

definition downloadingHandle :: pkg where
  "downloadingHandle = waitingHandle\<lparr>downloadPackage := True\<rparr>"

definition offlineWorld :: world where
  "offlineWorld = exampleWorld\<lparr>download := (\<lambda>tr. ([], Some ''connection refused''))\<rparr>"

subsection \<open>Attempts that fail, and the calls an attempt makes\<close>

text \<open>
  The state after \<open>n\<close> attempts in a row, none of which succeeded; \<open>None\<close> when one of
  them did.
\<close>

fun attemptsFail :: "nat \<Rightarrow> ('s \<Rightarrow> (bool \<times> error option) \<times> 's) \<Rightarrow> 's \<Rightarrow> 's option" where
  "attemptsFail 0 f s = Some s"
| "attemptsFail (Suc n) f s =
     (if fst (f s) = (True, None) then None else attemptsFail n f (snd (f s)))"

text \<open>
  The calls to the engine that are about one entry of the image mapping: the listing of
  the source under its full name, the pull of the source as \<^verbatim>\<open>ParseAnyReference\<close> writes
  it, the tagging of the source as the destination, and the push of the destination.
\<close>

definition concerns :: "world \<Rightarrow> string \<Rightarrow> string \<Rightarrow> event \<Rightarrow> bool" where
  "concerns w remoteImage localImage e =
     (case e of
        EvImageList name \<Rightarrow>
          (case reference_Parse remoteImage of
             Inl err \<Rightarrow> False
           | Inr repo \<Rightarrow>
               name = reference_Name repo @ '':''
                        @ (if ref_tag repo \<noteq> [] then ref_tag repo else ''latest''))
      | EvImagePull name \<Rightarrow> parseAnyReference w remoteImage = Inr name
      | EvImageTag source target \<Rightarrow> source = remoteImage \<and> target = localImage
      | EvImagePush name \<Rightarrow> name = localImage
      | _ \<Rightarrow> False)"

text \<open>
  A handle that is to push two images, and a world whose registry refuses every push.
\<close>

definition twoImages :: pkg where
  "twoImages =
     unpackedHandle\<lparr>downloadImageDomain := ''rainbond'', pushImageDomain := ''goodrain.me'',
       images := [(''/builder:v5.3.3'', ''/builder''), (''/runner:v5.3.3'', ''/runner'')]\<rparr>"

definition pushDenied :: world where
  "pushDenied = exampleWorld\<lparr>imagePushStream := (\<lambda>tr name. Inl ''denied'')\<rparr>"

subsection \<open>The files a walk counts\<close>

text \<open>
  An entry of the walk that both \<open>countImages\<close> and the function of the walk in
  \<open>imagesLoadAndPush\<close> let through: no error, a file, a valid name.
\<close>

definition counted :: "world \<Rightarrow> string \<times> string option \<Rightarrow> bool" where
  "counted w x = (snd x = None \<and> IsFile w (fst x) \<and> validateFile (fst x))"

text \<open>
  A handle that has a bundle, and a world whose directory holds one image archive beside
  a hidden file, the engine loading an image from any archive.
\<close>

definition loadingHandle :: pkg where
  "loadingHandle = unpackedHandle\<lparr>downloadPackage := True\<rparr>"

definition bundleWorld :: world where
  "bundleWorld =
     exampleWorld\<lparr>
       walk := [(''/opt/rainbond/pkg/files'', None),
                (''/opt/rainbond/pkg/files/rbd-api.tgz'', None),
                (''/opt/rainbond/pkg/files/._rbd-api.tgz'', None)],
       IsFile := (\<lambda>file. file \<noteq> ''/opt/rainbond/pkg/files''),
       imageLoadStream :=
         (\<lambda>tr file. Inr (Some (Msg \<lparr>Error = None,
              Stream = ''Loaded image: goodrain.me/rbd-api:v5.3.0''\<rparr> EOF)))\<rparr>"

text \<open>
  A directory of \<open>2^32\<close> image archives, named by the 32 binary digits of their number,
  and the world of the bundle with that directory: the walk reports the directory, then
  the archives in the order of their names.
\<close>

definition archiveName :: "nat \<Rightarrow> string" where
  "archiveName n = map (\<lambda>i. if bit n (31 - i) then CHR ''1'' else CHR ''0'') [0..<32]"

definition archive :: "nat \<Rightarrow> string \<times> string option" where
  "archive n = (''/opt/rainbond/pkg/files/'' @ archiveName n @ ''.tgz'', None)"

definition crowd :: "(string \<times> string option) list" where
  "crowd = (''/opt/rainbond/pkg/files'', None) # map archive [0..<2 ^ 32]"

definition crowdedWorld :: world where
  "crowdedWorld = bundleWorld\<lparr>walk := crowd\<rparr>"

section \<open>The condition store: what its operations write\<close>

lemma findIndex_Some:
  "findIndex typ3 cs = Some i \<Longrightarrow> i < length cs \<and> Type (cs ! i) = typ3"
  by (induction cs arbitrary: i) (auto split: if_splits)

text \<open>
  C7. \<open>updateConditionStatus\<close> rewrites one condition, the first of the stage (none when
  the stage has none), and leaves the others as they are. In that condition the
  heartbeat is a reading of the clock whatever the status; the transition time is a
  reading of the clock when the status differs from the stored one and is kept
  otherwise; and when the status is \<open>Completed\<close>, the progress becomes 100 and the
  reason and the message become empty.
\<close>

theorem setStatus_effect:
  "Conditions (pkg (updateConditionStatus w typ3 status p)) =
     (case findIndex typ3 (Conditions (pkg p)) of
        None \<Rightarrow> Conditions (pkg p)
      | Some i \<Rightarrow>
          (Conditions (pkg p))[i := (Conditions (pkg p) ! i)\<lparr>
             LastTransitionTime :=
               (if Status (Conditions (pkg p) ! i) \<noteq> status then Now w (nows (env p))
                else LastTransitionTime (Conditions (pkg p) ! i)),
             LastHeartbeatTime :=
               Now w (if Status (Conditions (pkg p) ! i) \<noteq> status then Suc (nows (env p))
                      else nows (env p)),
             Status := status,
             Progress := (if status = Completed then 100 else Progress (Conditions (pkg p) ! i)),
             Reason := (if status = Completed then [] else Reason (Conditions (pkg p) ! i)),
             Message := (if status = Completed then [] else Message (Conditions (pkg p) ! i))\<rparr>])"
proof (cases "findIndex typ3 (Conditions (pkg p))")
  case None
  then show ?thesis by (simp add: updateConditionStatus_def)
next
  case (Some i)
  then have "i < length (Conditions (pkg p))"
    using findIndex_Some by blast
  with Some show ?thesis
    by (simp add: updateConditionStatus_def modCondition_def ticked_def tick_def now_def Let_def)
qed

theorem setStatus_effect_witness:
  "Conditions (pkg (updateConditionStatus exampleWorld DownloadPackage Completed exampleHandle)) =
     [newCondition Init Completed 1 1,
      (newCondition DownloadPackage Completed 101 100)\<lparr>Progress := 100\<rparr>,
      newCondition UnpackPackage Waiting 3 3, newCondition PushImage Waiting 4 4,
      newCondition Ready Waiting 5 5]"
  using setStatus_effect [of exampleWorld DownloadPackage Completed exampleHandle]
  by (simp add: exampleHandle_def examplePackage_def newCondition_def exampleWorld_def start_def)

lemma progressLoop_types:
  "progressLoop clock typ3 v cs n = (b, cs', n') \<Longrightarrow> map Type cs' = map Type cs"
proof (induction cs arbitrary: n b cs' n')
  case Nil
  then show ?case by simp
next
  case (Cons c cs)
  obtain b1 cs1 n1 where r1: "progressLoop clock typ3 v cs (Suc n) = (b1, cs1, n1)"
    using prod_cases3 by blast
  obtain b2 cs2 n2 where r2: "progressLoop clock typ3 v cs n = (b2, cs2, n2)"
    using prod_cases3 by blast
  from Cons.prems r1 r2 Cons.IH [OF r1] Cons.IH [OF r2] show ?case
    by (simp split: if_splits) auto
qed

lemma progressLoop_stored:
  "progressLoop clock typ3 v cs n = (b, cs', n') \<Longrightarrow> findIndex typ3 cs = Some i
     \<Longrightarrow> Progress (cs' ! i) = v"
proof (induction cs arbitrary: n b cs' n' i)
  case Nil
  then show ?case by simp
next
  case (Cons c cs)
  obtain b1 cs1 n1 where r1: "progressLoop clock typ3 v cs (Suc n) = (b1, cs1, n1)"
    using prod_cases3 by blast
  obtain b2 cs2 n2 where r2: "progressLoop clock typ3 v cs n = (b2, cs2, n2)"
    using prod_cases3 by blast
  show ?case
  proof (cases "Type c = typ3")
    case True
    with Cons.prems r1 show ?thesis by (simp split: if_splits) auto
  next
    case False
    with Cons.prems(2) obtain j where j: "findIndex typ3 cs = Some j" "i = Suc j"
      by auto
    from Cons.prems(1) False r2 have "cs' = c # cs2" by simp
    with Cons.IH [OF r2 j(1)] j(2) show ?thesis by simp
  qed
qed

lemma progressLoop_changed:
  "progressLoop clock typ3 v cs n = (b, cs', n')
     \<Longrightarrow> b = (map Progress cs' \<noteq> map Progress cs)"
proof (induction cs arbitrary: n b cs' n')
  case Nil
  then show ?case by simp
next
  case (Cons c cs)
  show ?case
  proof (cases "Type c = typ3")
    case True
    show ?thesis
    proof (cases "Progress c = v")
      case same: True
      obtain b1 cs1 n1 where r: "progressLoop clock typ3 v cs (Suc n) = (b1, cs1, n1)"
        using prod_cases3 by blast
      from Cons.prems True same r
      have "b = b1" "cs' = c\<lparr>LastHeartbeatTime := clock n\<rparr> # cs1" by simp_all
      with Cons.IH [OF r] show ?thesis by simp
    next
      case False
      with Cons.prems True show ?thesis by auto
    qed
  next
    case False
    obtain b1 cs1 n1 where r: "progressLoop clock typ3 v cs n = (b1, cs1, n1)"
      using prod_cases3 by blast
    from Cons.prems False r have "b = b1" "cs' = c # cs1" by simp_all
    with Cons.IH [OF r] show ?thesis by simp
  qed
qed

lemma findIndex_cong: "map Type cs' = map Type cs \<Longrightarrow> findIndex typ3 cs' = findIndex typ3 cs"
proof (induction cs arbitrary: cs')
  case Nil
  then show ?case by simp
next
  case (Cons c cs)
  then obtain c' cs1 where "cs' = c' # cs1" "Type c' = Type c" "map Type cs1 = map Type cs"
    by (cases cs') auto
  with Cons.IH [of cs1] show ?case by simp
qed

text \<open>
  C4, as the code has it. \<open>updateConditionProgress\<close> bounds its argument from above
  only: what it stores in the first condition of the stage is the smaller of the
  argument and 100, so the stored progress is in \<open>[0,100]\<close> for an argument that is not
  negative, and a negative argument is stored as it is. It returns true exactly when
  the progress of some condition changed.
\<close>

theorem setProgress_effect:
  "findIndex typ3 (Conditions (pkg (snd (updateConditionProgress w typ3 progress p))))
     = findIndex typ3 (Conditions (pkg p))
   \<and> (\<forall>i. findIndex typ3 (Conditions (pkg p)) = Some i \<longrightarrow>
         Progress (Conditions (pkg (snd (updateConditionProgress w typ3 progress p))) ! i)
           = min (sint progress) 100
         \<and> (0 \<le> sint progress \<longrightarrow>
              0 \<le> Progress (Conditions (pkg (snd (updateConditionProgress w typ3 progress p))) ! i)
              \<and> Progress (Conditions (pkg (snd (updateConditionProgress w typ3 progress p))) ! i)
                    \<le> 100))
   \<and> (fst (updateConditionProgress w typ3 progress p) \<longleftrightarrow>
         map Progress (Conditions (pkg (snd (updateConditionProgress w typ3 progress p))))
           \<noteq> map Progress (Conditions (pkg p)))"
proof -
  have v: "sint (if 100 < sint progress then 100 else progress) = min (sint progress) 100"
    by simp
  obtain b cs' n' where
    l: "progressLoop (Now w) typ3 (min (sint progress) 100) (Conditions (pkg p)) (nows (env p))
          = (b, cs', n')"
    using prod_cases3 by blast
  have u: "updateConditionProgress w typ3 progress p
             = (b, p\<lparr>pkg := (pkg p)\<lparr>Conditions := cs'\<rparr>, env := (env p)\<lparr>nows := n'\<rparr>\<rparr>)"
    unfolding updateConditionProgress_def Let_def v using l by simp
  have a: "findIndex typ3 cs' = findIndex typ3 (Conditions (pkg p))"
    using progressLoop_types [OF l] by (rule findIndex_cong)
  have s: "\<forall>i. findIndex typ3 (Conditions (pkg p)) = Some i
              \<longrightarrow> Progress (cs' ! i) = min (sint progress) 100"
    using progressLoop_stored [OF l] by blast
  have c: "b = (map Progress cs' \<noteq> map Progress (Conditions (pkg p)))"
    using progressLoop_changed [OF l] .
  show ?thesis
    unfolding u using a s c by simp
qed

theorem setProgress_effect_witness:
  "Progress (Conditions (pkg (snd (updateConditionProgress exampleWorld PushImage 250 exampleHandle))) ! 3)
     = 100
   \<and> fst (updateConditionProgress exampleWorld PushImage 250 exampleHandle)"
proof -
  have f: "findIndex PushImage (Conditions (pkg exampleHandle)) = Some 3"
    by (simp add: exampleHandle_def examplePackage_def newCondition_def)
  have m: "map Progress (Conditions (pkg exampleHandle)) = [0, 0, 0, 0, 0]"
    by (simp add: exampleHandle_def examplePackage_def newCondition_def)
  have s: "sint (250 :: 32 word) = 250"
    by simp
  from setProgress_effect [of PushImage exampleWorld 250 exampleHandle] f s
  have p: "Progress (Conditions (pkg (snd (updateConditionProgress exampleWorld PushImage 250
              exampleHandle))) ! 3) = 100"
    by simp
  have "map Progress (Conditions (pkg (snd (updateConditionProgress exampleWorld PushImage 250
          exampleHandle)))) \<noteq> [0, 0, 0, 0, 0]"
  proof
    assume e: "map Progress (Conditions (pkg (snd (updateConditionProgress exampleWorld PushImage
                 250 exampleHandle)))) = [0, 0, 0, 0, 0]"
    have "map Progress (Conditions (pkg (snd (updateConditionProgress exampleWorld PushImage
            250 exampleHandle)))) ! 3 = 100"
      using p e by (metis (no_types) length_map nth_map numeral_3_eq_3 length_Cons
          list.size(3) lessI less_SucI)
    with e show False by simp
  qed
  with setProgress_effect [of PushImage exampleWorld 250 exampleHandle] m p
  show ?thesis by simp
qed

text \<open>
  C4 as stated fails below zero: \<^verbatim>\<open>-5\<close> for the push stage is stored as \<^verbatim>\<open>-5\<close>.
\<close>

theorem setProgress_negative:
  "Type (Conditions (pkg (snd (updateConditionProgress exampleWorld PushImage (- 5) exampleHandle))) ! 3)
     = PushImage
   \<and> Progress (Conditions (pkg (snd (updateConditionProgress exampleWorld PushImage (- 5) exampleHandle))) ! 3)
     = - 5"
  by (simp add: updateConditionProgress_def exampleHandle_def examplePackage_def newCondition_def
      exampleWorld_def start_def)

text \<open>
  C10. \<open>setInitStatus\<close> writes the status of the init condition and nothing else: the
  other conditions, and the progress, the reason, the message and both times of the
  init condition are as before, and the clock is not read. So an init condition that
  is completed can have a progress other than 100, which no condition completed by
  \<open>updateConditionStatus\<close> has: the init condition of a fresh status ends completed
  with progress 0.
\<close>

theorem setInitStatus_frame:
  "Conditions (pkg (snd (setInitStatus w p))) =
     (case findIndex Init (Conditions (pkg p)) of
        None \<Rightarrow> Conditions (pkg p)
      | Some i \<Rightarrow> (Conditions (pkg p))[i := (Conditions (pkg p) ! i)\<lparr>Status := Completed\<rparr>])
   \<and> nows (env (snd (setInitStatus w p))) = nows (env p)
   \<and> (\<forall>i. findIndex Init (Conditions (pkg p)) = Some i \<longrightarrow>
         Progress (Conditions (pkg (snd (setInitStatus w p))) ! i)
           = Progress (Conditions (pkg p) ! i)
         \<and> Reason (Conditions (pkg (snd (setInitStatus w p))) ! i)
           = Reason (Conditions (pkg p) ! i)
         \<and> Message (Conditions (pkg (snd (setInitStatus w p))) ! i)
           = Message (Conditions (pkg p) ! i)
         \<and> LastTransitionTime (Conditions (pkg (snd (setInitStatus w p))) ! i)
           = LastTransitionTime (Conditions (pkg p) ! i)
         \<and> LastHeartbeatTime (Conditions (pkg (snd (setInitStatus w p))) ! i)
           = LastHeartbeatTime (Conditions (pkg p) ! i))
   \<and> (\<exists>w' p' i. findIndex Init (Conditions (pkg (snd (setInitStatus w' p')))) = Some i
         \<and> Status (Conditions (pkg (snd (setInitStatus w' p'))) ! i) = Completed
         \<and> Progress (Conditions (pkg (snd (setInitStatus w' p'))) ! i) \<noteq> 100)"
proof -
  have frame: "Conditions (pkg (snd (setInitStatus w p))) =
     (case findIndex Init (Conditions (pkg p)) of
        None \<Rightarrow> Conditions (pkg p)
      | Some i \<Rightarrow> (Conditions (pkg p))[i := (Conditions (pkg p) ! i)\<lparr>Status := Completed\<rparr>])"
  proof (cases "findIndex Init (Conditions (pkg p))")
    case None
    then show ?thesis by (simp add: setInitStatus_def findCondition_def)
  next
    case (Some i)
    then have i: "i < length (Conditions (pkg p))"
      using findIndex_Some by blast
    show ?thesis
    proof (cases "Status (Conditions (pkg p) ! i) = Completed")
      case True
      have "(Conditions (pkg p) ! i)\<lparr>Status := Completed\<rparr> = Conditions (pkg p) ! i"
        using True by (metis PackageCondition.surjective PackageCondition.update_convs(2))
      then have k: "(Conditions (pkg p))[i := (Conditions (pkg p) ! i)\<lparr>Status := Completed\<rparr>]
                      = Conditions (pkg p)"
        by (simp only: list_update_id)
      have "Conditions (pkg (snd (setInitStatus w p))) = Conditions (pkg p)"
        using Some True by (simp add: setInitStatus_def findCondition_def)
      with k Some show ?thesis
        by (simp only: option.case)
    next
      case False
      with Some show ?thesis
        by (simp add: setInitStatus_def findCondition_def pkg_updateCRStatus_def
            updateCRStatus_def modCondition_def emit_def split: option.splits)
    qed
  qed
  have clock: "nows (env (snd (setInitStatus w p))) = nows (env p)"
    by (simp add: setInitStatus_def findCondition_def pkg_updateCRStatus_def
        updateCRStatus_def modCondition_def emit_def split: option.splits)
  have fields: "\<forall>i. findIndex Init (Conditions (pkg p)) = Some i \<longrightarrow>
         Progress (Conditions (pkg (snd (setInitStatus w p))) ! i)
           = Progress (Conditions (pkg p) ! i)
         \<and> Reason (Conditions (pkg (snd (setInitStatus w p))) ! i)
           = Reason (Conditions (pkg p) ! i)
         \<and> Message (Conditions (pkg (snd (setInitStatus w p))) ! i)
           = Message (Conditions (pkg p) ! i)
         \<and> LastTransitionTime (Conditions (pkg (snd (setInitStatus w p))) ! i)
           = LastTransitionTime (Conditions (pkg p) ! i)
         \<and> LastHeartbeatTime (Conditions (pkg (snd (setInitStatus w p))) ! i)
           = LastHeartbeatTime (Conditions (pkg p) ! i)"
  proof (intro allI impI)
    fix i
    assume f: "findIndex Init (Conditions (pkg p)) = Some i"
    then have "i < length (Conditions (pkg p))"
      using findIndex_Some by blast
    with f show "Progress (Conditions (pkg (snd (setInitStatus w p))) ! i)
           = Progress (Conditions (pkg p) ! i)
         \<and> Reason (Conditions (pkg (snd (setInitStatus w p))) ! i)
           = Reason (Conditions (pkg p) ! i)
         \<and> Message (Conditions (pkg (snd (setInitStatus w p))) ! i)
           = Message (Conditions (pkg p) ! i)
         \<and> LastTransitionTime (Conditions (pkg (snd (setInitStatus w p))) ! i)
           = LastTransitionTime (Conditions (pkg p) ! i)
         \<and> LastHeartbeatTime (Conditions (pkg (snd (setInitStatus w p))) ! i)
           = LastHeartbeatTime (Conditions (pkg p) ! i)"
      unfolding frame by simp
  qed
  have "findIndex Init (Conditions (pkg (snd (setInitStatus exampleWorld waitingHandle)))) = Some 0
      \<and> Status (Conditions (pkg (snd (setInitStatus exampleWorld waitingHandle))) ! 0) = Completed
      \<and> Progress (Conditions (pkg (snd (setInitStatus exampleWorld waitingHandle))) ! 0) \<noteq> 100"
    by (simp add: setInitStatus_def findCondition_def pkg_updateCRStatus_def
        updateCRStatus_def modCondition_def emit_def waitingHandle_def exampleHandle_def
        initPackageStatus_def newCondition_def exampleWorld_def)
  then have ex: "\<exists>w' p' i. findIndex Init (Conditions (pkg (snd (setInitStatus w' p')))) = Some i
         \<and> Status (Conditions (pkg (snd (setInitStatus w' p'))) ! i) = Completed
         \<and> Progress (Conditions (pkg (snd (setInitStatus w' p'))) ! i) \<noteq> 100"
    by blast
  from frame clock fields ex show ?thesis by blast
qed

theorem setInitStatus_frame_witness:
  "Conditions (pkg (snd (setInitStatus exampleWorld waitingHandle))) =
     [newCondition Init Completed 100 101, newCondition DownloadPackage Waiting 102 103,
      newCondition UnpackPackage Waiting 104 105, newCondition PushImage Waiting 106 107,
      newCondition Ready Waiting 108 109]
   \<and> Progress (Conditions (pkg (snd (setInitStatus exampleWorld waitingHandle))) ! 0) = 0"
proof -
  have c: "Conditions (pkg waitingHandle) =
     [newCondition Init Waiting 100 101, newCondition DownloadPackage Waiting 102 103,
      newCondition UnpackPackage Waiting 104 105, newCondition PushImage Waiting 106 107,
      newCondition Ready Waiting 108 109]"
    by (simp add: waitingHandle_def exampleHandle_def initPackageStatus_def exampleWorld_def
        start_def)
  have f: "findIndex Init (Conditions (pkg waitingHandle)) = Some 0"
    unfolding c by (simp add: newCondition_def)
  from setInitStatus_frame [of exampleWorld waitingHandle] f
  have "Conditions (pkg (snd (setInitStatus exampleWorld waitingHandle))) =
          (Conditions (pkg waitingHandle))[0 := (Conditions (pkg waitingHandle) ! 0)\<lparr>Status := Completed\<rparr>]"
    by simp
  then show ?thesis
    unfolding c by (simp add: newCondition_def)
qed

section \<open>The gatekeeper: which stages it claims\<close>

lemma updateConditionStatus_Status:
  assumes "findIndex typ3 (Conditions (pkg p)) = Some i"
  shows "Status (Conditions (pkg (updateConditionStatus w typ3 status p)) ! i) = status"
proof -
  have "i < length (Conditions (pkg p))"
    using assms findIndex_Some by blast
  with assms show ?thesis
    by (simp add: updateConditionStatus_def modCondition_def ticked_def tick_def now_def Let_def)
qed

lemma pkg_updateCRStatus_pkg: "pkg (snd (pkg_updateCRStatus w p)) = pkg p"
  by (simp add: pkg_updateCRStatus_def updateCRStatus_def split: option.splits)

text \<open>
  The two gatekeepers that claim their stage: when \<open>canDownload\<close> or \<open>canUnpack\<close>
  returns true, the condition of the stage is \<open>Running\<close>.
\<close>

lemma canDownload_claims:
  assumes "fst (canDownload w p)" and "findIndex DownloadPackage (Conditions (pkg p)) = Some i"
  shows "Status (Conditions (pkg (snd (canDownload w p))) ! i) = Running"
proof -
  have t: "Type (Conditions (pkg p) ! i) = DownloadPackage"
    using assms(2) findIndex_Some by blast
  from assms have "snd (canDownload w p)
      = snd (pkg_updateCRStatus w (updateConditionStatus w DownloadPackage Running p))"
    by (simp add: canDownload_def findCondition_def runningCondition_def t split: if_splits)
  then show ?thesis
    using updateConditionStatus_Status [OF assms(2)] by (simp add: pkg_updateCRStatus_pkg)
qed

lemma canUnpack_claims:
  assumes "fst (canUnpack w p)" and "findIndex UnpackPackage (Conditions (pkg p)) = Some i"
  shows "Status (Conditions (pkg (snd (canUnpack w p))) ! i) = Running"
proof -
  have t: "Type (Conditions (pkg p) ! i) = UnpackPackage"
    using assms(2) findIndex_Some by blast
  from assms have "snd (canUnpack w p)
      = snd (pkg_updateCRStatus w (updateConditionStatus w UnpackPackage Running p))"
    by (simp add: canUnpack_def findCondition_def runningCondition_def t
        split: if_splits option.splits)
  then show ?thesis
    using updateConditionStatus_Status [OF assms(2)] by (simp add: pkg_updateCRStatus_pkg)
qed

text \<open>
  C5 at a status whose unpacking is completed and whose push waits: \<open>canPushImage\<close>
  returns true, the push condition is still \<open>Waiting\<close>, and the pass that follows
  writes the status once, as its last step, when the stage has failed: no update stands
  before the calls to the engine, so nothing has claimed the stage while it runs.
\<close>

theorem canPushImage_does_not_claim:
  "canPushImage unpackedHandle
   \<and> findCondition PushImage unpackedHandle = Some 3
   \<and> Status (Conditions (pkg unpackedHandle) ! 3) = Waiting
   \<and> count_list (trace (env (snd (handle brokenEngine unpackedHandle)))) EvUpdateCRStatus = 1
   \<and> last (trace (env (snd (handle brokenEngine unpackedHandle)))) = EvUpdateCRStatus
   \<and> Status (Conditions (pkg (snd (handle brokenEngine unpackedHandle))) ! 3) = Failed"
  by code_simp

section \<open>Destination references\<close>

text \<open>
  C3, as the code has it. The destination is the new domain joined with the whole path of
  the loaded name, \<^verbatim>\<open>foo/bar\<close>, and its tag: only the domain \<^verbatim>\<open>registry.example\<close> is
  replaced.
\<close>

theorem newImageWithNewDomain_example:
  "newImageWithNewDomain ''registry.example/foo/bar:1.2'' ''dest.example/ns''
     = ''dest.example/ns/foo/bar:1.2''"
  by code_simp

text \<open>C3 as stated: the result is not \<^verbatim>\<open>dest.example/ns/bar:1.2\<close>.\<close>

theorem newImageWithNewDomain_keeps_path:
  "newImageWithNewDomain ''registry.example/foo/bar:1.2'' ''dest.example/ns''
     \<noteq> ''dest.example/ns/bar:1.2''"
  by code_simp

section \<open>The reconciliation pass\<close>

lemma updated_failure: "failure (updated w obj v) = None"
  by (simp add: updated_def updateCRStatus_def split: option.splits)

lemma updated_object: "object (updated w obj v) = Some obj"
  by (simp add: updated_def updateCRStatus_def split: option.splits)

lemma updated_stored:
  "statusUpdate w (trace v) = None \<Longrightarrow>
     stored (after (updated w obj v)) = Some obj \<and> RequeueAfter (updated w obj v) = 0"
  by (simp add: updated_def updateCRStatus_def emit_def)

lemma Reconcile_fresh:
  assumes "getPackage w = Found obj" and "Conditions obj = []"
    and "getCluster w = Found c" and "ConfigCompleted c"
    and "InstallMode c \<noteq> InstallationModeFullOnline"
  shows "Reconcile w = updated w (fst (initPackageStatus w Waiting obj start))
                         (snd (initPackageStatus w Waiting obj start))"
  using assms by (simp add: Reconcile_def checkStatusCanReturn_def split_def)

text \<open>
  C6, as the code has it. A pass initializes an empty status only past its gate: the
  package and the cluster were fetched, the cluster's configuration is complete and the
  install mode is not full-online. Then the status gets the five conditions, in the order
  of the stages, all waiting, and the pass returns no error; when the API server takes
  the update, this status is stored and nothing is requeued.
\<close>

theorem Reconcile_initializes:
  assumes "getPackage w = Found obj" and "Conditions obj = []"
    and "getCluster w = Found c" and "ConfigCompleted c"
    and "InstallMode c \<noteq> InstallationModeFullOnline"
  shows "\<exists>obj'. object (Reconcile w) = Some obj'
           \<and> Conditions obj' =
               [newCondition Init Waiting (Now w 0) (Now w 1),
                newCondition DownloadPackage Waiting (Now w 2) (Now w 3),
                newCondition UnpackPackage Waiting (Now w 4) (Now w 5),
                newCondition PushImage Waiting (Now w 6) (Now w 7),
                newCondition Ready Waiting (Now w 8) (Now w 9)]
           \<and> failure (Reconcile w) = None
           \<and> (statusUpdate w [] = None \<longrightarrow>
                stored (after (Reconcile w)) = Some obj' \<and> RequeueAfter (Reconcile w) = 0)"
proof -
  let ?obj = "fst (initPackageStatus w Waiting obj start)"
  let ?v = "snd (initPackageStatus w Waiting obj start)"
  have r: "Reconcile w = updated w ?obj ?v"
    using assms by (rule Reconcile_fresh)
  have c: "Conditions ?obj =
               [newCondition Init Waiting (Now w 0) (Now w 1),
                newCondition DownloadPackage Waiting (Now w 2) (Now w 3),
                newCondition UnpackPackage Waiting (Now w 4) (Now w 5),
                newCondition PushImage Waiting (Now w 6) (Now w 7),
                newCondition Ready Waiting (Now w 8) (Now w 9)]"
    by (simp add: initPackageStatus_def start_def) (simp only: numeral_2_eq_2)
  have t: "trace ?v = []"
    by (simp add: initPackageStatus_def start_def)
  have "object (Reconcile w) = Some ?obj"
    unfolding r by (rule updated_object)
  moreover have "failure (Reconcile w) = None"
    unfolding r by (rule updated_failure)
  moreover have "statusUpdate w [] = None \<longrightarrow>
      stored (after (Reconcile w)) = Some ?obj \<and> RequeueAfter (Reconcile w) = 0"
    unfolding r using updated_stored [of w ?v ?obj] t by simp
  ultimately have "object (Reconcile w) = Some ?obj
           \<and> Conditions ?obj =
               [newCondition Init Waiting (Now w 0) (Now w 1),
                newCondition DownloadPackage Waiting (Now w 2) (Now w 3),
                newCondition UnpackPackage Waiting (Now w 4) (Now w 5),
                newCondition PushImage Waiting (Now w 6) (Now w 7),
                newCondition Ready Waiting (Now w 8) (Now w 9)]
           \<and> failure (Reconcile w) = None
           \<and> (statusUpdate w [] = None \<longrightarrow>
                stored (after (Reconcile w)) = Some ?obj \<and> RequeueAfter (Reconcile w) = 0)"
    using c by (intro conjI)
  then show ?thesis
    by (rule exI)
qed

theorem Reconcile_initializes_witness:
  "\<exists>obj'. object (Reconcile freshWorld) = Some obj'
     \<and> map Type (Conditions obj') = [Init, DownloadPackage, UnpackPackage, PushImage, Ready]
     \<and> map Status (Conditions obj') = [Waiting, Waiting, Waiting, Waiting, Waiting]
     \<and> failure (Reconcile freshWorld) = None
     \<and> stored (after (Reconcile freshWorld)) = Some obj'"
proof -
  have g: "getPackage freshWorld = Found emptyPackage" "Conditions emptyPackage = []"
    "getCluster freshWorld = Found exampleCluster" "ConfigCompleted exampleCluster"
    "InstallMode exampleCluster \<noteq> InstallationModeFullOnline"
    "statusUpdate freshWorld [] = None"
    by (simp_all add: freshWorld_def exampleWorld_def emptyPackage_def exampleCluster_def)
  from Reconcile_initializes [OF g(1-5)] obtain obj' where
    o: "object (Reconcile freshWorld) = Some obj'
           \<and> Conditions obj' =
               [newCondition Init Waiting (Now freshWorld 0) (Now freshWorld 1),
                newCondition DownloadPackage Waiting (Now freshWorld 2) (Now freshWorld 3),
                newCondition UnpackPackage Waiting (Now freshWorld 4) (Now freshWorld 5),
                newCondition PushImage Waiting (Now freshWorld 6) (Now freshWorld 7),
                newCondition Ready Waiting (Now freshWorld 8) (Now freshWorld 9)]
           \<and> failure (Reconcile freshWorld) = None
           \<and> (statusUpdate freshWorld [] = None \<longrightarrow>
                stored (after (Reconcile freshWorld)) = Some obj'
                \<and> RequeueAfter (Reconcile freshWorld) = 0)"
    by (rule exE)
  have "object (Reconcile freshWorld) = Some obj'
     \<and> map Type (Conditions obj') = [Init, DownloadPackage, UnpackPackage, PushImage, Ready]
     \<and> map Status (Conditions obj') = [Waiting, Waiting, Waiting, Waiting, Waiting]
     \<and> failure (Reconcile freshWorld) = None
     \<and> stored (after (Reconcile freshWorld)) = Some obj'"
    using o g(6) by (simp add: newCondition_def)
  then show ?thesis
    by (rule exI)
qed

text \<open>
  C6 as stated fails before the gate and in full-online mode: with a cluster whose
  configuration is not complete the pass leaves the status empty and asks to be run
  again; with a full-online cluster it initializes the five conditions as completed.
\<close>

theorem Reconcile_leaves_empty:
  "map_option Conditions (object (Reconcile unconfiguredWorld)) = Some []
   \<and> RequeueAfter (Reconcile unconfiguredWorld) = 3
   \<and> map_option (map Status \<circ> Conditions) (object (Reconcile fullOnlineWorld))
       = Some [Completed, Completed, Completed, Completed, Completed]"
  by (simp add: Reconcile_def unconfiguredWorld_def fullOnlineWorld_def freshWorld_def
      exampleWorld_def emptyPackage_def examplePackage_def exampleCluster_def
      initPackageStatus_def updated_def updateCRStatus_def newCondition_def start_def emit_def)










section \<open>What the operations leave alone\<close>

lemma map_update_same:
  "g y = g (xs ! i) \<Longrightarrow> map g (xs[i := y]) = map g xs"
  by (metis list_update_beyond list_update_id map_update nth_map not_le_imp_less length_map)

lemma updateConditionStatus_Conditions:
  "Conditions (pkg (updateConditionStatus w typ3 status p)) =
     (case findIndex typ3 (Conditions (pkg p)) of
        None \<Rightarrow> Conditions (pkg p)
      | Some i \<Rightarrow>
          (Conditions (pkg p))[i := (Conditions (pkg p) ! i)\<lparr>
             LastTransitionTime :=
               (if Status (Conditions (pkg p) ! i) \<noteq> status then Now w (nows (env p))
                else LastTransitionTime (Conditions (pkg p) ! i)),
             LastHeartbeatTime :=
               Now w (if Status (Conditions (pkg p) ! i) \<noteq> status then Suc (nows (env p))
                      else nows (env p)),
             Status := status,
             Progress := (if status = Completed then 100 else Progress (Conditions (pkg p) ! i)),
             Reason := (if status = Completed then [] else Reason (Conditions (pkg p) ! i)),
             Message := (if status = Completed then [] else Message (Conditions (pkg p) ! i))\<rparr>])"
proof (cases "findIndex typ3 (Conditions (pkg p))")
  case None
  then show ?thesis by (simp add: updateConditionStatus_def)
next
  case (Some i)
  then have "i < length (Conditions (pkg p))"
    using findIndex_Some by blast
  with Some show ?thesis
    by (simp add: updateConditionStatus_def modCondition_def ticked_def tick_def now_def Let_def)
qed

lemma updateConditionStatus_Types:
  "map Type (Conditions (pkg (updateConditionStatus w typ3 status p)))
     = map Type (Conditions (pkg p))"
  unfolding updateConditionStatus_Conditions
  by (simp add: map_update_same split: option.splits)

lemma updateConditionStatus_rest:
  "ImagesPushed (pkg (updateConditionStatus w typ3 status p)) = ImagesPushed (pkg p)
   \<and> ImagesNumber (pkg (updateConditionStatus w typ3 status p)) = ImagesNumber (pkg p)"
  by (simp add: updateConditionStatus_def modCondition_def ticked_def tick_def Let_def
      split: option.splits)

lemma updateConditionResion_rest:
  "ImagesPushed (pkg (updateConditionResion w typ3 resion msg p)) = ImagesPushed (pkg p)
   \<and> ImagesNumber (pkg (updateConditionResion w typ3 resion msg p)) = ImagesNumber (pkg p)"
  by (simp add: updateConditionResion_def modCondition_def ticked_def tick_def
      split: option.splits)

lemma updateConditionStatus_trace:
  "trace (env (updateConditionStatus w typ3 status p)) = trace (env p)"
  by (simp add: updateConditionStatus_def modCondition_def ticked_def tick_def Let_def
      split: option.splits)

lemma updateConditionResion_Types:
  "map Type (Conditions (pkg (updateConditionResion w typ3 resion msg p)))
     = map Type (Conditions (pkg p))"
  by (simp add: updateConditionResion_def modCondition_def ticked_def map_update_same
      split: option.splits)

lemma updateConditionResion_Status:
  "map Status (Conditions (pkg (updateConditionResion w typ3 resion msg p)))
     = map Status (Conditions (pkg p))"
  by (simp add: updateConditionResion_def modCondition_def ticked_def map_update_same
      split: option.splits)

lemma updateConditionResion_trace:
  "trace (env (updateConditionResion w typ3 resion msg p)) = trace (env p)"
  by (simp add: updateConditionResion_def modCondition_def ticked_def tick_def
      split: option.splits)

lemma pkg_updateCRStatus_trace:
  "trace (env (snd (pkg_updateCRStatus w p))) = trace (env p) @ [EvUpdateCRStatus]"
  by (simp add: pkg_updateCRStatus_def updateCRStatus_def emit_def split: option.splits)

lemma updateConditionProgress_Types:
  "map Type (Conditions (pkg (snd (updateConditionProgress w typ3 progress p))))
     = map Type (Conditions (pkg p))"
proof -
  obtain b cs' n' where
    l: "progressLoop (Now w) typ3 (sint (if 100 < sint progress then 100 else progress))
          (Conditions (pkg p)) (nows (env p)) = (b, cs', n')"
    using prod_cases3 by blast
  then show ?thesis
    using progressLoop_types [OF l] by (simp add: updateConditionProgress_def Let_def)
qed

lemma updateConditionProgress_trace:
  "trace (env (snd (updateConditionProgress w typ3 progress p))) = trace (env p)"
  by (simp add: updateConditionProgress_def Let_def split_def)

lemma reportProgress_Types:
  "map Type (Conditions (pkg (reportProgress w typ3 vs p))) = map Type (Conditions (pkg p))"
proof (induction vs arbitrary: p)
  case Nil
  then show ?case by simp
next
  case (Cons v vs)
  obtain b p1 where u: "updateConditionProgress w typ3 v p = (b, p1)"
    by (cases "updateConditionProgress w typ3 v p")
  then have t: "map Type (Conditions (pkg p1)) = map Type (Conditions (pkg p))"
    using updateConditionProgress_Types [of w typ3 v p] by simp
  show ?case
  proof (cases b)
    case True
    with u t Cons.IH [of "snd (pkg_updateCRStatus w p1)"] show ?thesis
      by (simp add: pkg_updateCRStatus_pkg)
  next
    case False
    with u t Cons.IH [of p1] show ?thesis by simp
  qed
qed

lemma reportProgress_count:
  "e \<noteq> EvUpdateCRStatus \<Longrightarrow>
     count_list (trace (env (reportProgress w typ3 vs p))) e = count_list (trace (env p)) e"
proof (induction vs arbitrary: p)
  case Nil
  then show ?case by simp
next
  case (Cons v vs)
  obtain b p1 where u: "updateConditionProgress w typ3 v p = (b, p1)"
    by (cases "updateConditionProgress w typ3 v p")
  then have t: "trace (env p1) = trace (env p)"
    using updateConditionProgress_trace [of w typ3 v p] by simp
  show ?case
  proof (cases b)
    case True
    with u t Cons.IH [of "snd (pkg_updateCRStatus w p1)"] Cons.prems show ?thesis
      by (simp add: pkg_updateCRStatus_trace)
  next
    case False
    with u t Cons.IH [of p1] Cons.prems show ?thesis by simp
  qed
qed

lemma Download_Types:
  "map Type (Conditions (pkg (snd (Download w p)))) = map Type (Conditions (pkg p))"
  by (simp add: Download_def reportProgress_Types emitted_def)

lemma Download_count:
  "count_list (trace (env (snd (Download w p)))) EvDownload
     = Suc (count_list (trace (env p)) EvDownload)"
  by (simp add: Download_def reportProgress_count emitted_def emit_def)

lemma failStage_Status:
  assumes "findIndex typ3 (Conditions (pkg p)) = Some i"
  shows "Status (Conditions (pkg (failStage w typ3 resion msg p)) ! i) = Failed"
proof -
  have i: "i < length (Conditions (pkg p))"
    using assms findIndex_Some by blast
  let ?p1 = "updateConditionStatus w typ3 Failed p"
  have "length (map Type (Conditions (pkg ?p1))) = length (map Type (Conditions (pkg p)))"
    by (simp only: updateConditionStatus_Types)
  then have l: "i < length (Conditions (pkg ?p1))"
    using i by simp
  have "map Status (Conditions (pkg (failStage w typ3 resion msg p)))
          = map Status (Conditions (pkg ?p1))"
    by (simp add: failStage_def pkg_updateCRStatus_pkg updateConditionResion_Status)
  then have "map Status (Conditions (pkg (failStage w typ3 resion msg p))) ! i
          = map Status (Conditions (pkg ?p1)) ! i"
    by simp
  moreover have "length (Conditions (pkg (failStage w typ3 resion msg p)))
          = length (Conditions (pkg ?p1))"
    using \<open>map Status (Conditions (pkg (failStage w typ3 resion msg p)))
          = map Status (Conditions (pkg ?p1))\<close> by (rule map_eq_imp_length_eq)
  ultimately have "Status (Conditions (pkg (failStage w typ3 resion msg p)) ! i)
          = Status (Conditions (pkg ?p1) ! i)"
    using l by simp
  then show ?thesis
    using updateConditionStatus_Status [OF assms] by simp
qed

lemma failStage_trace:
  "trace (env (failStage w typ3 resion msg p)) = trace (env p) @ [EvUpdateCRStatus]"
  by (simp add: failStage_def pkg_updateCRStatus_trace updateConditionResion_trace
      updateConditionStatus_trace)

section \<open>The download stage\<close>

lemma donwnloadPackage_first_failed:
  assumes "\<not> checkMD5 w (trace (env p))"
    and "fst (Download w (emitted EvCheckMD5 p)) = Some e1"
  shows "donwnloadPackage w p =
     (map_option Err
        (fst (Download w
                (snd (pkg_updateCRStatus w
                        (updateConditionResion w Init e1
                           ''download rainbond package error, will retry''
                           (snd (Download w (emitted EvCheckMD5 p)))))))),
      snd (Download w
             (snd (pkg_updateCRStatus w
                     (updateConditionResion w Init e1
                        ''download rainbond package error, will retry''
                        (snd (Download w (emitted EvCheckMD5 p))))))))"
  using assms by (simp add: donwnloadPackage_def split_def split: option.splits)

lemma donwnloadPackage_Types:
  "map Type (Conditions (pkg (snd (donwnloadPackage w p)))) = map Type (Conditions (pkg p))"
  by (simp add: donwnloadPackage_def split_def Download_Types pkg_updateCRStatus_pkg
      updateConditionResion_Types emitted_def split: option.splits)

lemma donwnloadPackage_count:
  assumes "\<not> checkMD5 w (trace (env p))"
    and "fst (Download w (emitted EvCheckMD5 p)) = Some e1"
  shows "count_list (trace (env (snd (donwnloadPackage w p)))) EvDownload
           = count_list (trace (env p)) EvDownload + 2"
  unfolding donwnloadPackage_first_failed [OF assms]
  by (simp add: Download_count pkg_updateCRStatus_trace updateConditionResion_trace
      emitted_def emit_def)

lemma handleDownload_count:
  "count_list (trace (env (snd (handleDownload w p)))) EvDownload
     = count_list (trace (env (snd (donwnloadPackage w p)))) EvDownload"
  by (simp add: handleDownload_def returnUpdate_def split_def failStage_trace
      pkg_updateCRStatus_trace updateConditionStatus_trace split: option.splits)

text \<open>
  C8. The download stage runs with no bundle of the wanted checksum in place and its
  first transfer fails. Then the stage makes two transfers in all, whatever the second
  one does. When the second fails too, \<open>donwnloadPackage\<close> returns its error, the stage
  returns an error and the download condition is \<open>Failed\<close>. \<open>p2\<close> is the handle at the
  retry.
\<close>

theorem download_retried_once:
  assumes "\<not> checkMD5 w (trace (env p))"
    and "fst (Download w (emitted EvCheckMD5 p)) = Some e1"
    and "findIndex DownloadPackage (Conditions (pkg p)) = Some i"
    and "p2 = snd (pkg_updateCRStatus w
                     (updateConditionResion w Init e1
                        ''download rainbond package error, will retry''
                        (snd (Download w (emitted EvCheckMD5 p)))))"
  shows "count_list (trace (env (snd (handleDownload w p)))) EvDownload
           = count_list (trace (env p)) EvDownload + 2
         \<and> (\<forall>e2. fst (Download w p2) = Some e2 \<longrightarrow>
               fst (donwnloadPackage w p) = Some (Err e2)
               \<and> fst (handleDownload w p) = Some (Err (''failed to download package '' @ e2))
               \<and> Status (Conditions (pkg (snd (handleDownload w p))) ! i) = Failed)"
proof (intro conjI allI impI)
  show "count_list (trace (env (snd (handleDownload w p)))) EvDownload
           = count_list (trace (env p)) EvDownload + 2"
    using handleDownload_count donwnloadPackage_count [OF assms(1,2)] by simp
next
  fix e2
  assume f: "fst (Download w p2) = Some e2"
  have d: "donwnloadPackage w p = (Some (Err e2), snd (Download w p2))"
    unfolding donwnloadPackage_first_failed [OF assms(1,2)] using f assms(4) by simp
  then show "fst (donwnloadPackage w p) = Some (Err e2)"
    by simp
  show "fst (handleDownload w p) = Some (Err (''failed to download package '' @ e2))"
    using d by (simp add: handleDownload_def message_def)
  have "findIndex DownloadPackage (Conditions (pkg (snd (donwnloadPackage w p)))) = Some i"
    using donwnloadPackage_Types [of w p] assms(3) findIndex_cong by metis
  then have "Status (Conditions (pkg (failStage w DownloadPackage e2 ''download package failure''
                (snd (donwnloadPackage w p)))) ! i) = Failed"
    by (rule failStage_Status)
  then show "Status (Conditions (pkg (snd (handleDownload w p))) ! i) = Failed"
    using d by (simp add: handleDownload_def message_def)
qed

lemma offline_checks:
  "\<not> checkMD5 offlineWorld (trace (env downloadingHandle))"
  "fst (Download offlineWorld (emitted EvCheckMD5 downloadingHandle)) = Some ''connection refused''"
  "findIndex DownloadPackage (Conditions (pkg downloadingHandle)) = Some 1"
  "fst (Download offlineWorld
         (snd (pkg_updateCRStatus offlineWorld
                 (updateConditionResion offlineWorld Init ''connection refused''
                    ''download rainbond package error, will retry''
                    (snd (Download offlineWorld (emitted EvCheckMD5 downloadingHandle)))))))
     = Some ''connection refused''"
  "count_list (trace (env downloadingHandle)) EvDownload = 0"
  by (simp_all add: offlineWorld_def exampleWorld_def Download_def downloadingHandle_def
      waitingHandle_def exampleHandle_def initPackageStatus_def newCondition_def start_def)

theorem download_retried_once_witness:
  "count_list (trace (env (snd (handleDownload offlineWorld downloadingHandle)))) EvDownload = 2
   \<and> fst (handleDownload offlineWorld downloadingHandle)
       = Some (Err ''failed to download package connection refused'')
   \<and> Status (Conditions (pkg (snd (handleDownload offlineWorld downloadingHandle))) ! 1) = Failed"
  using download_retried_once [OF offline_checks(1-3) refl] offline_checks(4,5)
  by simp

section \<open>The push stage: pull and push\<close>

lemma checkIfImageExists_env:
  "snd (checkIfImageExists w img p) = p\<lparr>env := env (snd (checkIfImageExists w img p))\<rparr>"
  by (simp add: checkIfImageExists_def emitted_def Let_def split: sum.splits)

lemma checkIfImageExists_error:
  "fst (checkIfImageExists w img p) = Inl e \<Longrightarrow> \<exists>m. e = Err m"
  by (auto simp add: checkIfImageExists_def Let_def split: sum.splits)

lemma checkIfImageExists_events:
  "set (trace (env (snd (checkIfImageExists w remoteImage p))))
     \<subseteq> set (trace (env p)) \<union> {e. concerns w remoteImage localImage e}"
  by (auto simp add: checkIfImageExists_def emitted_def emit_def concerns_def Let_def
      split: sum.splits)

lemma imagePull_env:
  "snd (imagePull w img p) = p\<lparr>env := env (snd (imagePull w img p))\<rparr>"
  by (simp add: imagePull_def emitted_def split: sum.splits option.splits)

lemma imagePull_events:
  "set (trace (env (snd (imagePull w remoteImage p))))
     \<subseteq> set (trace (env p)) \<union> {e. concerns w remoteImage localImage e}"
  by (auto simp add: imagePull_def emitted_def emit_def concerns_def
      split: sum.splits option.splits)

lemma imageTagCall_env:
  "snd (imageTagCall w source target p) = p\<lparr>env := env (snd (imageTagCall w source target p))\<rparr>"
  by (simp add: imageTagCall_def emitted_def)

lemma imageTagCall_events:
  "set (trace (env (snd (imageTagCall w remoteImage localImage p))))
     \<subseteq> set (trace (env p)) \<union> {e. concerns w remoteImage localImage e}"
  by (auto simp add: imageTagCall_def emitted_def emit_def concerns_def)

lemma imagePush_env:
  "snd (imagePush w img p) = p\<lparr>env := env (snd (imagePush w img p))\<rparr>"
  by (simp add: imagePush_def emitted_def split: sum.splits option.splits)

lemma imagePush_events:
  "set (trace (env (snd (imagePush w localImage p))))
     \<subseteq> set (trace (env p)) \<union> {e. concerns w remoteImage localImage e}"
  by (auto simp add: imagePush_def emitted_def emit_def concerns_def
      split: sum.splits option.splits)

lemma checkIfImageExists_steps:
  assumes "checkIfImageExists w remoteImage p = (x, p1)"
  shows "pkg p1 = pkg p"
    and "set (trace (env p1)) \<subseteq> set (trace (env p)) \<union> {e. concerns w remoteImage localImage e}"
proof -
  from assms have p1: "p1 = snd (checkIfImageExists w remoteImage p)"
    by simp
  show "pkg p1 = pkg p"
    unfolding p1 by (subst checkIfImageExists_env) simp
  show "set (trace (env p1)) \<subseteq> set (trace (env p)) \<union> {e. concerns w remoteImage localImage e}"
    unfolding p1 by (rule checkIfImageExists_events)
qed

lemma imagePull_steps:
  assumes "imagePull w remoteImage p = (x, p1)"
  shows "pkg p1 = pkg p"
    and "set (trace (env p1)) \<subseteq> set (trace (env p)) \<union> {e. concerns w remoteImage localImage e}"
proof -
  from assms have p1: "p1 = snd (imagePull w remoteImage p)"
    by simp
  show "pkg p1 = pkg p"
    unfolding p1 by (subst imagePull_env) simp
  show "set (trace (env p1)) \<subseteq> set (trace (env p)) \<union> {e. concerns w remoteImage localImage e}"
    unfolding p1 by (rule imagePull_events)
qed

lemma imageTagCall_steps:
  assumes "imageTagCall w remoteImage localImage p = (x, p1)"
  shows "pkg p1 = pkg p"
    and "set (trace (env p1)) \<subseteq> set (trace (env p)) \<union> {e. concerns w remoteImage localImage e}"
proof -
  from assms have p1: "p1 = snd (imageTagCall w remoteImage localImage p)"
    by simp
  show "pkg p1 = pkg p"
    unfolding p1 by (subst imageTagCall_env) simp
  show "set (trace (env p1)) \<subseteq> set (trace (env p)) \<union> {e. concerns w remoteImage localImage e}"
    unfolding p1 by (rule imageTagCall_events)
qed

lemma imagePush_steps:
  assumes "imagePush w localImage p = (x, p1)"
  shows "pkg p1 = pkg p"
    and "set (trace (env p1)) \<subseteq> set (trace (env p)) \<union> {e. concerns w remoteImage localImage e}"
proof -
  from assms have p1: "p1 = snd (imagePush w localImage p)"
    by simp
  show "pkg p1 = pkg p"
    unfolding p1 by (subst imagePush_env) simp
  show "set (trace (env p1)) \<subseteq> set (trace (env p)) \<union> {e. concerns w remoteImage localImage e}"
    unfolding p1 by (rule imagePush_events)
qed

text \<open>
  An attempt at an image changes nothing of the handle but the world, calls the engine
  about that image only, and does not panic.
\<close>

lemma handleImgae_steps:
  "pkg (snd (handleImgae w remoteImage localImage p)) = pkg p
   \<and> set (trace (env (snd (handleImgae w remoteImage localImage p))))
        \<subseteq> set (trace (env p)) \<union> {e. concerns w remoteImage localImage e}
   \<and> (\<forall>m. snd (fst (handleImgae w remoteImage localImage p)) \<noteq> Some (Panic m))"
proof -
  let ?C = "{e. concerns w remoteImage localImage e}"
  obtain x p1 where c: "checkIfImageExists w remoteImage p = (x, p1)"
    by (cases "checkIfImageExists w remoteImage p")
  have c1: "pkg p1 = pkg p" "set (trace (env p1)) \<subseteq> set (trace (env p)) \<union> ?C"
    by (rule checkIfImageExists_steps [OF c])+
  show ?thesis
  proof (cases x)
    case (Inl e)
    then obtain m where "e = Err m"
      using checkIfImageExists_error [of w remoteImage p e] c by auto
    with c Inl c1 show ?thesis
      by (simp add: handleImgae_def wrap_def)
  next
    case (Inr existing)
    obtain y p2 where q: "(if \<not> existing then imagePull w remoteImage p1 else (None, p1)) = (y, p2)"
      by (cases "if \<not> existing then imagePull w remoteImage p1 else (None, p1)")
    have q1: "pkg p2 = pkg p1"
      "set (trace (env p2)) \<subseteq> set (trace (env p1)) \<union> ?C"
      using q imagePull_steps(1) [of w remoteImage p1 y p2]
        imagePull_steps(2) [of w remoteImage p1 y p2 localImage]
      by (auto split: if_splits)
    show ?thesis
    proof (cases y)
      case (Some e)
      with c Inr q c1 q1 show ?thesis
        by (auto simp add: handleImgae_def)
    next
      case None
      obtain z p3 where t: "imageTagCall w remoteImage localImage p2 = (z, p3)"
        by (cases "imageTagCall w remoteImage localImage p2")
      have t1: "pkg p3 = pkg p2" "set (trace (env p3)) \<subseteq> set (trace (env p2)) \<union> ?C"
        by (rule imageTagCall_steps [OF t])+
      show ?thesis
      proof (cases z)
        case (Some e)
        with c Inr q None t c1 q1 t1 show ?thesis
          by (auto simp add: handleImgae_def)
      next
        case tagged: None
        obtain u p4 where s: "imagePush w localImage p3 = (u, p4)"
          by (cases "imagePush w localImage p3")
        have s1: "pkg p4 = pkg p3" "set (trace (env p4)) \<subseteq> set (trace (env p3)) \<union> ?C"
          by (rule imagePush_steps [OF s])+
        from c Inr q None t tagged s c1 q1 t1 s1 show ?thesis
          by (cases u) (auto simp add: handleImgae_def)
      qed
    qed
  qed
qed

lemma attemptsFail_handleImgae:
  "attemptsFail n (handleImgae w remoteImage localImage) p = Some p'
     \<Longrightarrow> pkg p' = pkg p
         \<and> set (trace (env p')) \<subseteq> set (trace (env p)) \<union> {e. concerns w remoteImage localImage e}"
proof (induction n arbitrary: p)
  case 0
  then show ?case by simp
next
  case (Suc n)
  let ?q = "snd (handleImgae w remoteImage localImage p)"
  from Suc.prems have "attemptsFail n (handleImgae w remoteImage localImage) ?q = Some p'"
    by (simp split: if_splits)
  from Suc.IH [OF this] handleImgae_steps [of w remoteImage localImage p]
  show ?case by auto
qed

lemma Retry_Suc:
  "Retry interval (Suc n) f s =
     (case snd (fst (f s)) of
        Some (Panic m) \<Rightarrow> (Some (Panic m), snd (f s))
      | _ \<Rightarrow>
          if fst (f s) = (True, None) then (None, snd (f s))
          else if n = 0
          then (Some (case snd (fst (f s)) of
                        Some e \<Rightarrow> e
                      | None \<Rightarrow> Err ''still failing after retries''), snd (f s))
          else Retry interval n f (snd (f s)))"
proof -
  obtain ok err s1 where r: "f s = ((ok, err), s1)"
    by (metis surj_pair)
  show ?thesis
  proof (cases err)
    case None
    with r show ?thesis by (cases ok) simp_all
  next
    case (Some e)
    with r show ?thesis by (cases e; cases ok) simp_all
  qed
qed

text \<open>
  When every attempt allowed has failed, and no attempt panics, the retry fails with an
  error, in the state the last attempt left.
\<close>

lemma Retry_all_fail:
  assumes "attemptsFail n f s = Some s'" and "0 < n"
    and "\<And>s m. snd (fst (f s)) \<noteq> Some (Panic m)"
  shows "\<exists>m. Retry interval n f s = (Some (Err m), s')"
  using assms(1,2)
proof (induction n arbitrary: s)
  case 0
  then show ?case by simp
next
  case (Suc n)
  from Suc.prems(1) have nf: "fst (f s) \<noteq> (True, None)"
    and rest: "attemptsFail n f (snd (f s)) = Some s'"
    by (simp_all split: if_splits)
  have np: "\<And>m. snd (fst (f s)) \<noteq> Some (Panic m)"
    by (rule assms(3))
  show ?case
  proof (cases "n = 0")
    case True
    with rest have s': "s' = snd (f s)" by simp
    show ?thesis
    proof (cases "snd (fst (f s))")
      case None
      with nf True s' show ?thesis
        by (simp only: Retry_Suc) simp
    next
      case (Some e)
      with np obtain m where "e = Err m"
        by (cases e) auto
      with Some nf True s' show ?thesis
        by (simp only: Retry_Suc) simp
    qed
  next
    case False
    then have "0 < n" by simp
    from Suc.IH [OF rest this] obtain m where
      m: "Retry interval n f (snd (f s)) = (Some (Err m), s')"
      by blast
    show ?thesis
    proof (cases "snd (fst (f s))")
      case None
      with nf False m show ?thesis
        by (simp only: Retry_Suc) simp
    next
      case (Some e)
      with np obtain m' where "e = Err m'"
        by (cases e) auto
      with Some nf False m show ?thesis
        by (simp only: Retry_Suc) simp
    qed
  qed
qed

lemma failStage_rest:
  "ImagesPushed (pkg (failStage w typ3 resion msg p)) = ImagesPushed (pkg p)"
  by (simp add: failStage_def pkg_updateCRStatus_pkg updateConditionResion_rest
      updateConditionStatus_rest)

text \<open>
  C2. In pull-and-push mode, with a mapping of two entries, let the three attempts at the
  first image all fail, \<open>p3\<close> being the handle they leave. Then the stage returns an
  error and marks the push condition \<open>Failed\<close>; the list of pushed images is empty; the
  trace of the stage is the trace of those three attempts followed by the one status
  update of the failure; so every call made to the engine is about the first image, and
  none is made for the second.
\<close>

theorem push_stops_at_first_image:
  assumes "images p = [(old1, new1), (old2, new2)]" and "\<not> downloadPackage p"
    and "findIndex PushImage (Conditions (pkg p)) = Some i"
    and "remote1 = Join [downloadImageDomain p, old1]"
    and "local1 = Join [pushImageDomain p, new1]"
    and "attemptsFail 3 (handleImgae w remote1 local1)
           (p\<lparr>pkg := (pkg p)\<lparr>ImagesNumber := 2, ImagesPushed := []\<rparr>\<rparr>) = Some p3"
  shows "(\<exists>m. fst (handlePushImage w p) = Some (Err (''failed to pull and push images: '' @ m)))
     \<and> Status (Conditions (pkg (snd (handlePushImage w p))) ! i) = Failed
     \<and> ImagesPushed (pkg (snd (handlePushImage w p))) = []
     \<and> trace (env (snd (handlePushImage w p))) = trace (env p3) @ [EvUpdateCRStatus]
     \<and> (\<forall>e \<in> set (trace (env (snd (handlePushImage w p)))).
           e \<in> set (trace (env p)) \<or> e = EvUpdateCRStatus \<or> concerns w remote1 local1 e)"
proof -
  let ?p0 = "p\<lparr>pkg := (pkg p)\<lparr>ImagesNumber := 2, ImagesPushed := []\<rparr>\<rparr>"
  have np: "\<And>s m. snd (fst (handleImgae w remote1 local1 s)) \<noteq> Some (Panic m)"
    using handleImgae_steps by blast
  from Retry_all_fail [OF assms(6) _ np, of 2] obtain m where
    m: "Retry 2 3 (handleImgae w remote1 local1) ?p0 = (Some (Err m), p3)"
    by auto
  have l: "imagePullAndPush w p = (Some (Err m), p3)"
    using m assms(1,4,5) by (simp add: imagePullAndPush_def)
  have h: "handlePushImage w p
             = (Some (Err (''failed to pull and push images: '' @ m)),
                failStage w PushImage m ''pull and push images failure'' p3)"
    using l assms(2) by (simp add: handlePushImage_def)
  have k: "pkg p3 = pkg ?p0"
    "set (trace (env p3)) \<subseteq> set (trace (env ?p0)) \<union> {e. concerns w remote1 local1 e}"
    using attemptsFail_handleImgae [OF assms(6)] by simp_all
  have f: "findIndex PushImage (Conditions (pkg p3)) = Some i"
    using k(1) assms(3) by simp
  have a: "\<exists>m. fst (handlePushImage w p) = Some (Err (''failed to pull and push images: '' @ m))"
    using h by simp
  have b: "Status (Conditions (pkg (snd (handlePushImage w p))) ! i) = Failed"
    unfolding h using failStage_Status [OF f] by simp
  have c: "ImagesPushed (pkg (snd (handlePushImage w p))) = []"
    unfolding h using k(1) by (simp add: failStage_rest)
  have d: "trace (env (snd (handlePushImage w p))) = trace (env p3) @ [EvUpdateCRStatus]"
    unfolding h by (simp add: failStage_trace)
  have e: "\<forall>e \<in> set (trace (env (snd (handlePushImage w p)))).
           e \<in> set (trace (env p)) \<or> e = EvUpdateCRStatus \<or> concerns w remote1 local1 e"
    unfolding d using k(2) by auto
  from a b c d e show ?thesis
    by (intro conjI)
qed

lemma pushDenied_attempts:
  "attemptsFail 3
     (handleImgae pushDenied (Join [downloadImageDomain twoImages, ''/builder:v5.3.3''])
        (Join [pushImageDomain twoImages, ''/builder'']))
     (twoImages\<lparr>pkg := (pkg twoImages)\<lparr>ImagesNumber := 2, ImagesPushed := []\<rparr>\<rparr>) \<noteq> None"
  by code_simp

lemma pushDenied_trace:
  "trace (env (snd (handlePushImage pushDenied twoImages))) =
     [EvImageList ''rainbond/builder:v5.3.3'', EvImagePull ''rainbond/builder:v5.3.3'',
      EvImageTag ''rainbond/builder:v5.3.3'' ''goodrain.me/builder'',
      EvImagePush ''goodrain.me/builder'',
      EvImageList ''rainbond/builder:v5.3.3'', EvImagePull ''rainbond/builder:v5.3.3'',
      EvImageTag ''rainbond/builder:v5.3.3'' ''goodrain.me/builder'',
      EvImagePush ''goodrain.me/builder'',
      EvImageList ''rainbond/builder:v5.3.3'', EvImagePull ''rainbond/builder:v5.3.3'',
      EvImageTag ''rainbond/builder:v5.3.3'' ''goodrain.me/builder'',
      EvImagePush ''goodrain.me/builder'', EvUpdateCRStatus]"
  by code_simp

theorem push_stops_at_first_image_witness:
  "(\<exists>m. fst (handlePushImage pushDenied twoImages)
          = Some (Err (''failed to pull and push images: '' @ m)))
   \<and> Status (Conditions (pkg (snd (handlePushImage pushDenied twoImages))) ! 3) = Failed
   \<and> ImagesPushed (pkg (snd (handlePushImage pushDenied twoImages))) = []
   \<and> trace (env (snd (handlePushImage pushDenied twoImages))) =
     [EvImageList ''rainbond/builder:v5.3.3'', EvImagePull ''rainbond/builder:v5.3.3'',
      EvImageTag ''rainbond/builder:v5.3.3'' ''goodrain.me/builder'',
      EvImagePush ''goodrain.me/builder'',
      EvImageList ''rainbond/builder:v5.3.3'', EvImagePull ''rainbond/builder:v5.3.3'',
      EvImageTag ''rainbond/builder:v5.3.3'' ''goodrain.me/builder'',
      EvImagePush ''goodrain.me/builder'',
      EvImageList ''rainbond/builder:v5.3.3'', EvImagePull ''rainbond/builder:v5.3.3'',
      EvImageTag ''rainbond/builder:v5.3.3'' ''goodrain.me/builder'',
      EvImagePush ''goodrain.me/builder'', EvUpdateCRStatus]"
proof -
  have g: "images twoImages = [(''/builder:v5.3.3'', ''/builder''), (''/runner:v5.3.3'', ''/runner'')]"
    "\<not> downloadPackage twoImages"
    "findIndex PushImage (Conditions (pkg twoImages)) = Some 3"
    by (simp_all add: twoImages_def unpackedHandle_def exampleHandle_def examplePackage_def
        newCondition_def)
  from pushDenied_attempts obtain p3 where
    "attemptsFail 3
       (handleImgae pushDenied (Join [downloadImageDomain twoImages, ''/builder:v5.3.3''])
          (Join [pushImageDomain twoImages, ''/builder'']))
       (twoImages\<lparr>pkg := (pkg twoImages)\<lparr>ImagesNumber := 2, ImagesPushed := []\<rparr>\<rparr>) = Some p3"
    by blast
  from push_stops_at_first_image [OF g refl refl this] pushDenied_trace
  show ?thesis
    by (intro conjI) simp_all
qed

section \<open>The push stage: load and push\<close>

lemma countImages_fold:
  "fold (\<lambda>(pstr, err) count.
           if err \<noteq> None then count
           else if \<not> IsFile w pstr then count
           else if \<not> validateFile pstr then count
           else count + 1) xs (c :: 32 word)
     = c + of_nat (length (filter (counted w) xs))"
  by (induction xs arbitrary: c) (auto simp add: counted_def)

lemma countImages_filter:
  "countImages w = of_nat (length (filter (counted w) (walk w)))"
  unfolding countImages_def countImages_fold by simp

lemma countImages_positive:
  assumes "length (filter (counted w) (walk w)) < 2 ^ 31"
    and "\<exists>x \<in> set (walk w). counted w x"
  shows "1 \<le> sint (countImages w)"
proof -
  let ?n = "length (filter (counted w) (walk w))"
  from assms(2) have "filter (counted w) (walk w) \<noteq> []"
    by (auto simp add: filter_empty_conv)
  then have pos: "1 \<le> int ?n"
    by (cases "filter (counted w) (walk w)") simp_all
  have "sint (of_nat ?n :: 32 word) = signed_take_bit 31 (int ?n)"
    by (simp add: signed_of_nat)
  also have "\<dots> = int ?n"
    using assms(1) by (intro signed_take_bit_int_eq_self) simp_all
  finally have "sint (of_nat ?n :: 32 word) = int ?n" .
  with pos show ?thesis
    by (simp only: countImages_filter)
qed

lemma imageLoad_steps:
  "pkg (snd (imageLoad w file p)) = pkg p
   \<and> (\<forall>e. fst (imageLoad w file p) = Inl e \<longrightarrow> (\<exists>m. e = Err m))"
proof -
  have l: "\<And>n b e. loaded n b = Inl e \<Longrightarrow> \<exists>m. e = Err m"
  proof -
    fix n b e
    show "loaded n b = Inl e \<Longrightarrow> \<exists>m. e = Err m"
      by (induction n b rule: loaded.induct) (auto simp add: Let_def split: option.splits)
  qed
  show ?thesis
    by (auto simp add: imageLoad_def emitted_def Let_def dest: l
        split: option.splits sum.splits if_splits)
qed

lemma updateConditionProgress_rest:
  "ImagesNumber (pkg (snd (updateConditionProgress w typ3 progress p))) = ImagesNumber (pkg p)"
  by (simp add: updateConditionProgress_def Let_def split_def)

text \<open>
  An attempt at a file keeps \<^verbatim>\<open>ImagesNumber\<close>, and does not panic when that number is not
  zero.
\<close>

lemma loadAndPush_steps:
  "ImagesNumber (pkg (snd (snd (loadAndPush w pstr cp)))) = ImagesNumber (pkg (snd cp))
   \<and> (ImagesNumber (pkg (snd cp)) \<noteq> 0 \<longrightarrow>
        (\<forall>m. snd (fst (loadAndPush w pstr cp)) \<noteq> Some (Panic m)))"
proof -
  obtain x p1 where a: "imageLoad w pstr (snd cp) = (x, p1)"
    by (cases "imageLoad w pstr (snd cp)")
  have a1: "pkg p1 = pkg (snd cp)" "\<And>e. x = Inl e \<Longrightarrow> \<exists>m. e = Err m"
    using imageLoad_steps [of w pstr "snd cp"] a by auto
  show ?thesis
  proof (cases x)
    case (Inl e)
    then obtain m where "e = Err m"
      using a1(2) by blast
    with a Inl a1(1) show ?thesis
      by (simp add: loadAndPush_def wrap_def)
  next
    case (Inr img)
    let ?new = "newImageWithNewDomain img (GetImageRepository w)"
    show ?thesis
    proof (cases "?new = []")
      case True
      with a Inr a1(1) show ?thesis
        by (simp add: loadAndPush_def)
    next
      case False
      obtain z p2 where t: "imageTagCall w img ?new p1 = (z, p2)"
        by (cases "imageTagCall w img ?new p1")
      have t1: "pkg p2 = pkg p1"
        by (rule imageTagCall_steps(1) [OF t])
      show ?thesis
      proof (cases z)
        case (Some e)
        with a Inr False t a1(1) t1 show ?thesis
          by (simp add: loadAndPush_def)
      next
        case None
        obtain u p3 where s: "imagePush w ?new p2 = (u, p3)"
          by (cases "imagePush w ?new p2")
        have s1: "pkg p3 = pkg p2"
          by (rule imagePush_steps(1) [OF s])
        show ?thesis
        proof (cases u)
          case (Some e)
          with a Inr False t None s a1(1) t1 s1 show ?thesis
            by (simp add: loadAndPush_def)
        next
          case pushedOk: None
          have n3: "ImagesNumber (pkg p3) = ImagesNumber (pkg (snd cp))"
            using a1(1) t1 s1 by simp
          show ?thesis
          proof (cases "ImagesNumber (pkg (snd cp)) = 0")
            case True
            with a Inr False t None s pushedOk n3 show ?thesis
              by (simp add: loadAndPush_def progressOf_def pushed_def)
          next
            case nz: False
            obtain b p5 where
              v: "updateConditionProgress w PushImage
                    (int32_div ((fst cp + 1) * 100) (ImagesNumber (pkg p3))) (pushed ?new p3)
                  = (b, p5)"
              by (cases "updateConditionProgress w PushImage
                    (int32_div ((fst cp + 1) * 100) (ImagesNumber (pkg p3))) (pushed ?new p3)")
            have n5: "ImagesNumber (pkg p5) = ImagesNumber (pkg (snd cp))"
              using updateConditionProgress_rest [of w PushImage
                  "int32_div ((fst cp + 1) * 100) (ImagesNumber (pkg p3))" "pushed ?new p3"]
                v n3 by (simp add: pushed_def)
            obtain r p6 where c: "pkg_updateCRStatus w p5 = (r, p6)"
              by (cases "pkg_updateCRStatus w p5")
            have n6: "ImagesNumber (pkg p6) = ImagesNumber (pkg (snd cp))"
              using pkg_updateCRStatus_pkg [of w p5] c n5 by simp
            from a Inr False t None s pushedOk n3 nz v n5 c n6 show ?thesis
              by (cases b; cases r) (simp_all add: loadAndPush_def progressOf_def)
          qed
        qed
      qed
    qed
  qed
qed

text \<open>A retry keeps what its attempts keep, and panics only when an attempt does.\<close>

lemma Retry_invariant:
  assumes "\<And>s. I s \<Longrightarrow> I (snd (f s)) \<and> (\<forall>m. snd (fst (f s)) \<noteq> Some (Panic m))"
    and "I s"
  shows "I (snd (Retry interval n f s)) \<and> (\<forall>m. fst (Retry interval n f s) \<noteq> Some (Panic m))"
  using assms(2)
proof (induction n arbitrary: s)
  case 0
  then show ?case by simp
next
  case (Suc n)
  from assms(1) [OF Suc.prems] have i: "I (snd (f s))"
    and np: "\<And>m. snd (fst (f s)) \<noteq> Some (Panic m)"
    by simp_all
  show ?case
  proof (cases "snd (fst (f s))")
    case None
    with i Suc.IH [OF i] show ?thesis
      by (simp only: Retry_Suc) simp
  next
    case (Some e)
    with np obtain m' where "e = Err m'"
      by (cases e) auto
    with Some i Suc.IH [OF i] show ?thesis
      by (simp only: Retry_Suc) simp
  qed
qed

lemma walkLoop_no_panic:
  assumes "(\<exists>x \<in> set xs. counted w x) \<longrightarrow> ImagesNumber (pkg (snd cp)) \<noteq> 0"
  shows "fst (walkLoop w xs cp) \<noteq> Some (Panic m)"
  using assms
proof (induction xs arbitrary: cp)
  case Nil
  then show ?case by simp
next
  case (Cons x xs)
  obtain pstr err where x: "x = (pstr, err)"
    by (cases x)
  show ?case
  proof (cases "counted w x")
    case False
    then have "fst (walkLoop w (x # xs) cp) = fst (walkLoop w xs cp)
        \<or> (\<exists>e. fst (walkLoop w (x # xs) cp) = Some (Err e))"
      using x by (auto simp add: counted_def split: option.splits)
    moreover have "fst (walkLoop w xs cp) \<noteq> Some (Panic m)"
      using Cons.prems by (intro Cons.IH) simp
    ultimately show ?thesis
      by auto
  next
    case True
    with Cons.prems have nz: "ImagesNumber (pkg (snd cp)) \<noteq> 0"
      by simp
    let ?I = "\<lambda>s. ImagesNumber (pkg (snd s)) \<noteq> 0"
    have r: "?I (snd (Retry 1 3 (loadAndPush w pstr) cp))
        \<and> (\<forall>m. fst (Retry 1 3 (loadAndPush w pstr) cp) \<noteq> Some (Panic m))"
    proof (rule Retry_invariant [where I = ?I])
      fix s :: "32 word \<times> pkg"
      assume "ImagesNumber (pkg (snd s)) \<noteq> 0"
      then show "ImagesNumber (pkg (snd (snd (loadAndPush w pstr s)))) \<noteq> 0
          \<and> (\<forall>m. snd (fst (loadAndPush w pstr s)) \<noteq> Some (Panic m))"
        using loadAndPush_steps [of w pstr s] by simp
    next
      show "ImagesNumber (pkg (snd cp)) \<noteq> 0"
        by (rule nz)
    qed
    obtain e cp' where q: "Retry 1 3 (loadAndPush w pstr) cp = (e, cp')"
      by (cases "Retry 1 3 (loadAndPush w pstr) cp")
    with r have nz': "ImagesNumber (pkg (snd cp')) \<noteq> 0" and ne: "e \<noteq> Some (Panic m)"
      by simp_all
    have "fst (walkLoop w xs cp') \<noteq> Some (Panic m)"
      using nz' by (intro Cons.IH) simp
    with True x q ne show ?thesis
      by (cases e) (simp_all add: counted_def)
  qed
qed

text \<open>
  C9, with its bound. In load-and-push mode the division \<^verbatim>\<open>count * 100 / ImagesNumber\<close>
  never divides by zero, the directory being the same for the count and for the walk, and
  holding fewer than \<open>2^31\<close> files that pass the filter (the counter is an \<^verbatim>\<open>int32\<close>, and
  wraps): the stage does not panic, and \<^verbatim>\<open>ImagesNumber\<close> is at least 1 whenever a file
  passes the filter, which is when the division is reached.
\<close>

theorem load_and_push_divides_safely:
  assumes "length (filter (counted w) (walk w)) < 2 ^ 31"
  shows "(\<forall>m. fst (imagesLoadAndPush w p) \<noteq> Some (Panic m))
         \<and> ((\<exists>x \<in> set (walk w). counted w x) \<longrightarrow> 1 \<le> sint (countImages w))"
proof (intro conjI allI impI)
  fix m
  let ?cp = "(0 :: 32 word, p\<lparr>pkg := (pkg p)\<lparr>ImagesNumber := countImages w, ImagesPushed := []\<rparr>\<rparr>)"
  have "(\<exists>x \<in> set (walk w). counted w x) \<longrightarrow> ImagesNumber (pkg (snd ?cp)) \<noteq> 0"
  proof
    assume "\<exists>x \<in> set (walk w). counted w x"
    from countImages_positive [OF assms this] have "sint (countImages w) \<noteq> 0"
      by simp
    then have "countImages w \<noteq> 0"
      by auto
    then show "ImagesNumber (pkg (snd ?cp)) \<noteq> 0"
      by simp
  qed
  then have "fst (walkLoop w (walk w) ?cp) \<noteq> Some (Panic m)"
    by (rule walkLoop_no_panic)
  then show "fst (imagesLoadAndPush w p) \<noteq> Some (Panic m)"
    by (simp add: imagesLoadAndPush_def split_def)
next
  assume "\<exists>x \<in> set (walk w). counted w x"
  with assms show "1 \<le> sint (countImages w)"
    by (rule countImages_positive)
qed

lemma bundleWorld_counted:
  "filter (counted bundleWorld) (walk bundleWorld)
     = [(''/opt/rainbond/pkg/files/rbd-api.tgz'', None)]"
  by code_simp

lemma bundleWorld_pushed:
  "fst (imagesLoadAndPush bundleWorld loadingHandle) = None
   \<and> ImagesPushed (pkg (snd (imagesLoadAndPush bundleWorld loadingHandle)))
       = [''goodrain.me/rbd-api:v5.3.0'']
   \<and> map Progress (Conditions (pkg (snd (imagesLoadAndPush bundleWorld loadingHandle))))
       = [0, 0, 0, 100, 0]"
  by code_simp

theorem load_and_push_divides_safely_witness:
  "(\<forall>m. fst (imagesLoadAndPush bundleWorld loadingHandle) \<noteq> Some (Panic m))
   \<and> 1 \<le> sint (countImages bundleWorld)
   \<and> ImagesPushed (pkg (snd (imagesLoadAndPush bundleWorld loadingHandle)))
       = [''goodrain.me/rbd-api:v5.3.0'']"
proof -
  have n: "length (filter (counted bundleWorld) (walk bundleWorld)) < 2 ^ 31"
    unfolding bundleWorld_counted by simp
  have x: "\<exists>x \<in> set (walk bundleWorld). counted bundleWorld x"
  proof -
    have "(''/opt/rainbond/pkg/files/rbd-api.tgz'', None)
            \<in> set (filter (counted bundleWorld) (walk bundleWorld))"
      unfolding bundleWorld_counted by simp
    then show ?thesis
      by auto
  qed
  from load_and_push_divides_safely [OF n, of loadingHandle] x bundleWorld_pushed
  show ?thesis
    by (intro conjI) simp_all
qed

text \<open>The archives of the crowded directory pass the filter, and their names differ.\<close>

lemma archiveName_chars: "set (archiveName n) \<subseteq> {CHR ''0'', CHR ''1''}"
  unfolding archiveName_def by auto

lemma validateFile_plain:
  assumes "CHR ''/'' \<notin> set s" and "CHR ''.'' \<notin> set s"
  shows "validateFile (d @ ''/'' @ s @ ''.tgz'')"
proof -
  have b: "Base (d @ ''/'' @ s @ ''.tgz'') = s @ ''.tgz''"
    using assms(1) by (simp add: Base_def Let_def takeWhile_append)
  have e: "Ext (s @ ''.tgz'') = ''.tgz''"
    using assms by (simp add: Ext_def Let_def takeWhile_append)
  have h: "\<not> HasPrefix (s @ ''.tgz'') ''._''"
    using assms(2) by (cases s; cases "tl s") (auto simp add: HasPrefix_def)
  show ?thesis
    by (simp only: validateFile_def Let_def b e h) simp
qed

lemma archive_0:
  "archive 0 = (''/opt/rainbond/pkg/files/00000000000000000000000000000000.tgz'', None)"
  by (simp add: archive_def archiveName_def upt_rec)


lemma archive_counted: "counted (bundleWorld\<lparr>walk := xs\<rparr>) (archive n)"
proof -
  have c: "CHR ''/'' \<notin> set (archiveName n)" "CHR ''.'' \<notin> set (archiveName n)"
    using archiveName_chars [of n] by auto
  have "validateFile (''/opt/rainbond/pkg/files'' @ ''/'' @ archiveName n @ ''.tgz'')"
    using c by (rule validateFile_plain)
  then show ?thesis
    by (simp add: counted_def archive_def bundleWorld_def)
qed

lemma crowd_counted:
  "filter (counted (bundleWorld\<lparr>walk := xs\<rparr>)) crowd = map archive [0..<2 ^ 32]"
proof -
  have "\<not> counted (bundleWorld\<lparr>walk := xs\<rparr>) (''/opt/rainbond/pkg/files'', None)"
    by (simp add: counted_def bundleWorld_def)
  moreover have "filter (counted (bundleWorld\<lparr>walk := xs\<rparr>)) (map archive ns) = map archive ns" for ns
    by (induction ns) (simp_all add: archive_counted)
  ultimately show ?thesis
    by (simp only: crowd_def filter.simps if_False)
qed

lemma crowdedWorld_count: "countImages crowdedWorld = 0"
proof -
  have "walk crowdedWorld = crowd"
    by (simp add: crowdedWorld_def)
  then have "filter (counted crowdedWorld) (walk crowdedWorld) = map archive [0..<2 ^ 32]"
    unfolding crowdedWorld_def by (simp only: crowd_counted)
  then have "length (filter (counted crowdedWorld) (walk crowdedWorld)) = 2 ^ 32"
    by (simp only: length_map length_upt)
  then show ?thesis
    by (simp only: countImages_filter) simp
qed

text \<open>
  The walk of the crowded directory: the count is \<open>2^32\<close>, which an \<^verbatim>\<open>int32\<close> holds as 0, and
  the first archive, loaded, tagged and pushed, divides by it.
\<close>

lemma crowd_first:
  "crowd = (''/opt/rainbond/pkg/files'', None)
     # (''/opt/rainbond/pkg/files/00000000000000000000000000000000.tgz'', None)
     # map archive [1..<2 ^ 32]"
proof -
  have "[0..<2 ^ 32] = 0 # [Suc 0..<2 ^ 32]"
    by (rule upt_conv_Cons) simp
  then show ?thesis
    by (simp only: crowd_def list.map archive_0 One_nat_def)
qed

lemma first_archive_panics:
  "fst (walkLoop (bundleWorld\<lparr>walk := xs\<rparr>)
          ((''/opt/rainbond/pkg/files'', None)
           # (''/opt/rainbond/pkg/files/00000000000000000000000000000000.tgz'', None) # rest)
          (0, loadingHandle\<lparr>pkg := (pkg loadingHandle)\<lparr>ImagesNumber := 0, ImagesPushed := []\<rparr>\<rparr>))
     = Some (Panic ''runtime error: integer divide by zero'')"
  by code_simp


lemma crowdedWorld_panics:
  "fst (imagesLoadAndPush crowdedWorld loadingHandle)
     = Some (Panic ''runtime error: integer divide by zero'')"
proof -
  have w: "walk crowdedWorld = crowd"
    by (simp add: crowdedWorld_def)
  have "fst (walkLoop crowdedWorld crowd
          (0, loadingHandle\<lparr>pkg := (pkg loadingHandle)\<lparr>ImagesNumber := 0, ImagesPushed := []\<rparr>\<rparr>))
     = Some (Panic ''runtime error: integer divide by zero'')"
    unfolding crowdedWorld_def
    by (subst (2) crowd_first) (rule first_archive_panics)
  then show ?thesis
    by (simp add: imagesLoadAndPush_def w crowdedWorld_count split_def)
qed

lemma archiveName_inj:
  assumes "archiveName m = archiveName n" and "m < 2 ^ 32" and "n < 2 ^ 32"
  shows "m = n"
proof -
  have "bit m k = bit n k" if "k < 32" for k
  proof -
    have "archiveName m ! (31 - k) = archiveName n ! (31 - k)"
      using assms(1) by simp
    moreover have "31 - k < 32" by simp
    ultimately show ?thesis
      using that unfolding archiveName_def
      by (simp only: nth_map length_upt nth_upt) (simp split: if_splits)
  qed
  then have "take_bit 32 m = take_bit 32 n"
    by (auto simp add: bit_eq_iff bit_take_bit_iff)
  then show ?thesis
    using assms(2,3) by (simp add: take_bit_nat_eq_self)
qed

lemma crowd_distinct: "distinct (map fst crowd)"
proof -
  have "inj_on (fst \<circ> archive) {0..<2 ^ 32}"
    by (rule inj_onI) (auto simp add: archive_def dest: archiveName_inj)
  then have "distinct (map (fst \<circ> archive) [0..<2 ^ 32])"
    by (simp only: distinct_map distinct_upt atLeastLessThan_upt)
  moreover have "''/opt/rainbond/pkg/files'' \<notin> set (map (fst \<circ> archive) [0..<2 ^ 32])"
    by (auto simp add: archive_def)
  ultimately show ?thesis
    by (simp only: crowd_def list.map fst_conv distinct.simps map_map) simp
qed

text \<open>
  C9 as stated fails in the crowded directory: its \<open>2^32\<close> files have names of their own
  and pass the filter, \<^verbatim>\<open>countImages\<close> answers 0, and the stage, reaching the division at
  the first archive, panics.
\<close>

theorem load_and_push_divides_by_zero:
  "distinct (map fst (walk crowdedWorld))
   \<and> length (filter (counted crowdedWorld) (walk crowdedWorld)) = 2 ^ 32
   \<and> countImages crowdedWorld = 0
   \<and> fst (imagesLoadAndPush crowdedWorld loadingHandle)
       = Some (Panic ''runtime error: integer divide by zero'')"
proof -
  have w: "walk crowdedWorld = crowd"
    by (simp add: crowdedWorld_def)
  have "filter (counted crowdedWorld) (walk crowdedWorld) = map archive [0..<2 ^ 32]"
    unfolding w unfolding crowdedWorld_def by (rule crowd_counted)
  then have "length (filter (counted crowdedWorld) (walk crowdedWorld)) = 2 ^ 32"
    by (simp only: length_map length_upt)
  then show ?thesis
    using crowd_distinct crowdedWorld_count crowdedWorld_panics
    by (simp only: w)
qed

end
